theory Spec2Isabelle
  imports Complex_Main
begin

section \<open>LifeSynced: calendar sync, ignore filter, overlap detection and column layout\<close>

text \<open>
  A shallow embedding of the sync route (\<open>expandEvent\<close>, \<open>createEventRecord\<close>,
  \<open>syncIcsCalendar\<close>, \<open>POST\<close>), of the events route (\<open>GET\<close>,
  \<open>getBaseIdFromEventId\<close>), of \<open>toCalendarEvent\<close> and of the two pure computations of
  the page (\<open>getOverlappingEventIds\<close>, \<open>calculateEventLayout\<close>).

  Conventions. A JavaScript \<open>Date\<close> is its time value, an \<open>int\<close> of milliseconds since
  the epoch; it is a valid date when its magnitude is at most 8.64e15, and
  \<open>toISOString\<close> throws a RangeError otherwise. All numbers stay in the range where
  double arithmetic is exact. A thrown exception is a value of type \<open>thrown\<close>; a
  function that may throw returns \<open>thrown + 'a\<close>. The system clock is a stream of
  readings, threaded through every function that reads it.
\<close>

subsection \<open>Strings\<close>

text \<open>
  A character is a UTF-16 code unit below 256 (the Latin-1 range); strings with other
  code units are outside the model.
\<close>

definition digit_char :: "nat \<Rightarrow> char" where
  "digit_char n = ''0123456789'' ! (n mod 10)"

definition is_digit :: "char \<Rightarrow> bool" where
  "is_digit c = (c \<in> set ''0123456789'')"

text \<open>Decimal rendering of a number inside a template string.\<close>

function dec_str :: "nat \<Rightarrow> string" where
  "dec_str n = (if n < 10 then [digit_char n] else dec_str (n div 10) @ [digit_char n])"
  by pat_completeness auto
termination
  by (relation "measure (\<lambda>n. n)") auto

definition show_int :: "int \<Rightarrow> string" where
  "show_int i = (if i < 0 then CHR ''-'' # dec_str (nat (- i)) else dec_str (nat i))"

text \<open>
  \<open>s.split(c)\<close> for a one-character separator, and \<open>parts.join(c)\<close>. A character
  other than the separator goes in front of the first part of the rest, and the rest
  always has a first part.
\<close>

fun split_on :: "char \<Rightarrow> string \<Rightarrow> string list" where
  "split_on c [] = [[]]"
| "split_on c (x # xs) =
     (if x = c then [] # split_on c xs
      else (case split_on c xs of p # ps \<Rightarrow> (x # p) # ps | [] \<Rightarrow> [[x]]))"

fun join_with :: "char \<Rightarrow> string list \<Rightarrow> string" where
  "join_with c [] = []"
| "join_with c [p] = p"
| "join_with c (p # q # ps) = p @ c # join_with c (q # ps)"

text \<open>
  \<open>toLowerCase\<close> and \<open>includes\<close>. The capital letters below 256 are \<open>A\<close> to \<open>Z\<close>
  and the code units 192 to 222 without the multiplication sign 215; each has its
  small letter 32 above it.
\<close>

definition lower_char :: "char \<Rightarrow> char" where
  "lower_char c =
     (if (65 \<le> (of_char c :: nat) \<and> (of_char c :: nat) \<le> 90) \<or>
         (192 \<le> (of_char c :: nat) \<and> (of_char c :: nat) \<le> 222 \<and> (of_char c :: nat) \<noteq> 215)
      then char_of ((of_char c :: nat) + 32) else c)"

definition toLowerCase :: "string \<Rightarrow> string" where
  "toLowerCase s = map lower_char s"

fun starts_with :: "string \<Rightarrow> string \<Rightarrow> bool" where
  "starts_with [] s = True"
| "starts_with (p # ps) [] = False"
| "starts_with (p # ps) (x # xs) = (p = x \<and> starts_with ps xs)"

fun str_includes :: "string \<Rightarrow> string \<Rightarrow> bool" where
  "str_includes [] needle = (needle = [])"
| "str_includes (x # xs) needle = (starts_with needle (x # xs) \<or> str_includes xs needle)"

text \<open>
  The white space that \<open>trim\<close> and \<open>parseInt\<close> skip: space, tab, line feed,
  vertical tab, form feed, carriage return and the no-break space.
\<close>

definition is_space :: "char \<Rightarrow> bool" where
  "is_space c = (c \<in> set [CHR '' '', CHR 0x09, CHR 0x0A, CHR 0x0B, CHR 0x0C, CHR 0x0D, CHR 0xA0])"

text \<open>\<open>s.trim()\<close>\<close>

definition trim :: "string \<Rightarrow> string" where
  "trim s = rev (dropWhile is_space (rev (dropWhile is_space s)))"

subsection \<open>Dates\<close>

datatype thrown = ErrorObj string | OtherThrown

text \<open>\<open>err instanceof Error ? err.message : 'Unknown error'\<close>\<close>

fun error_message :: "thrown \<Rightarrow> string" where
  "error_message (ErrorObj m) = m"
| "error_message OtherThrown = ''Unknown error''"

text \<open>
  The civil date of a day number (days since 1970-01-01) in the proleptic Gregorian
  calendar, as \<open>YearFromTime\<close>, \<open>MonthFromTime\<close> and \<open>DateFromTime\<close> of ECMAScript
  give it: the 400-year era and the day in it, the year in the era, the day in the
  year counted from 1 March, and the month counted from March.
\<close>

definition civil_of_month :: "int \<Rightarrow> int \<Rightarrow> int \<Rightarrow> int \<times> nat \<times> nat" where
  "civil_of_month y doy mp =
     (if (if mp < 10 then mp + 3 else mp - 9) \<le> 2 then y + 1 else y,
      nat (if mp < 10 then mp + 3 else mp - 9),
      nat (doy - (153 * mp + 2) div 5 + 1))"

definition civil_of_year :: "int \<Rightarrow> int \<Rightarrow> int \<Rightarrow> int \<times> nat \<times> nat" where
  "civil_of_year era doe yoe =
     civil_of_month (yoe + era * 400) (doe - (365 * yoe + yoe div 4 - yoe div 100))
       ((5 * (doe - (365 * yoe + yoe div 4 - yoe div 100)) + 2) div 153)"

definition civil_of_era :: "int \<Rightarrow> int \<Rightarrow> int \<times> nat \<times> nat" where
  "civil_of_era era doe =
     civil_of_year era doe ((doe - doe div 1460 + doe div 36524 - doe div 146096) div 365)"

definition civil_from_days :: "int \<Rightarrow> int \<times> nat \<times> nat" where
  "civil_from_days z = civil_of_era ((z + 719468) div 146097) ((z + 719468) mod 146097)"

definition pad2 :: "nat \<Rightarrow> string" where
  "pad2 n = [digit_char (n div 10), digit_char n]"

definition pad3 :: "nat \<Rightarrow> string" where
  "pad3 n = [digit_char (n div 100), digit_char (n div 10), digit_char n]"

definition pad4 :: "nat \<Rightarrow> string" where
  "pad4 n = [digit_char (n div 1000), digit_char (n div 100), digit_char (n div 10), digit_char n]"

definition pad6 :: "nat \<Rightarrow> string" where
  "pad6 n = [digit_char (n div 100000), digit_char (n div 10000), digit_char (n div 1000),
             digit_char (n div 100), digit_char (n div 10), digit_char n]"

definition iso_year :: "int \<Rightarrow> int" where
  "iso_year t = fst (civil_from_days (t div 86400000))"

definition year_str :: "int \<Rightarrow> string" where
  "year_str y =
     (if 0 \<le> y \<and> y \<le> 9999 then pad4 (nat y)
      else (if y < 0 then ''-'' else ''+'') @ pad6 (nat \<bar>y\<bar>))"

text \<open>The text \<open>YYYY-MM-DDTHH:mm:ss.sssZ\<close> of a valid time value.\<close>

definition iso_text :: "int \<times> nat \<times> nat \<Rightarrow> nat \<Rightarrow> string" where
  "iso_text ymd msd =
     (case ymd of (y, m, d) \<Rightarrow>
        year_str y @ ''-'' @ pad2 m @ ''-'' @ pad2 d @ ''T'' @
        pad2 (msd div 3600000) @ '':'' @ pad2 (msd div 60000 mod 60) @ '':'' @
        pad2 (msd div 1000 mod 60) @ ''.'' @ pad3 (msd mod 1000) @ ''Z'')"

definition iso_format :: "int \<Rightarrow> string" where
  "iso_format t = iso_text (civil_from_days (t div 86400000)) (nat (t mod 86400000))"

definition valid_date :: "int \<Rightarrow> bool" where
  "valid_date t = (\<bar>t\<bar> \<le> 8640000000000000)"

definition toISOString :: "int \<Rightarrow> thrown + string" where
  "toISOString t =
     (if valid_date t then Inr (iso_format t) else Inl (ErrorObj ''Invalid time value''))"

text \<open>The clock: the readings still to come; reading one removes it.\<close>

type_synonym clock = "nat \<Rightarrow> int"

definition clock_tick :: "clock \<Rightarrow> clock" where
  "clock_tick clk = (\<lambda>n. clk (Suc n))"

subsection \<open>Event ids\<close>

text \<open>The test \<open>/^\d{8}(T\d{6})?$/\<close> of the events route.\<close>

definition isTimestamp :: "string \<Rightarrow> bool" where
  "isTimestamp s =
     ((length s = 8 \<and> list_all is_digit s) \<or>
      (length s = 15 \<and> list_all is_digit (take 8 s) \<and> s ! 8 = CHR ''T'' \<and>
       list_all is_digit (drop 9 s)))"

definition getBaseIdFromEventId :: "string \<Rightarrow> string" where
  "getBaseIdFromEventId eventId =
     (let parts = split_on CHR ''_'' eventId in
      if length parts \<le> 1 then eventId
      else let lastPart = last parts in
        if isTimestamp lastPart then join_with CHR ''_'' (butlast parts) else eventId)"

text \<open>The page's own copy accepts the 15-character form only.\<close>

definition page_getBaseIdFromEventId :: "string \<Rightarrow> string" where
  "page_getBaseIdFromEventId eventId =
     (if CHR ''_'' \<in> set eventId then
        let parts = split_on CHR ''_'' eventId; lastPart = last parts in
        if length lastPart = 15 \<and> list_all is_digit (take 8 lastPart) \<and>
           lastPart ! 8 = CHR ''T'' \<and> list_all is_digit (drop 9 lastPart)
        then join_with CHR ''_'' (butlast parts) else eventId
      else eventId)"

subsection \<open>The sync route: records and expansion\<close>

record ICAL_Time =
  toJSDate :: int
  isDate :: bool

text \<open>
  One call of \<open>next()\<close> on the recurrence iterator of the library: a candidate,
  \<open>null\<close>, or an exception.
\<close>

datatype iter_step = Candidate ICAL_Time | Exhausted | Raise thrown

text \<open>
  \<open>ICAL.Event\<close> as the type declaration has it. \<open>duration\<close> is \<open>toSeconds()\<close> of the
  duration; \<open>iterator k\<close> is what call number \<open>k\<close> of \<open>next()\<close> on a fresh iterator does
  (an iterator that cannot be created raises at call 0).
\<close>

record ICAL_Event =
  uid :: string
  summary :: string
  description :: string
  ical_location :: string
  startDate :: "ICAL_Time option"
  endDate :: "ICAL_Time option"
  duration :: "int option"
  organizer :: "string option"
  isRecurring :: bool
  iterator :: "nat \<Rightarrow> iter_step"

datatype sync_source = Ics | AppleCalendar

fun source_str :: "sync_source \<Rightarrow> string" where
  "source_str Ics = ''ics''"
| "source_str AppleCalendar = ''apple_calendar''"

record Appointment =
  id' :: string
  subject :: string
  start_time :: string
  end_time :: string
  location :: string
  organizer_email :: string
  organizer_name :: string
  attendees :: "string list"
  body_preview :: string
  is_all_day :: bool
  source :: string
  created_at :: "string option"
  updated_at :: string

definition STATUS_WORDS :: "string list" where
  "STATUS_WORDS = [''[Free]'', ''[Busy]'', ''[Tentative]'', ''[Out of Office]'',
                   ''[Working Elsewhere]'']"

definition maxIterations :: nat where
  "maxIterations = 500"

definition dateStr :: "string \<Rightarrow> string" where
  "dateStr isoText =
     takeWhile (\<lambda>c. c \<noteq> CHR ''.'') (filter (\<lambda>c. c \<noteq> CHR ''-'' \<and> c \<noteq> CHR '':'') isoText)"

definition createEventRecord ::
  "clock \<Rightarrow> ICAL_Event \<Rightarrow> int option \<Rightarrow> sync_source \<Rightarrow> (thrown + Appointment option) \<times> clock" where
  "createEventRecord clk event startDate0 src =
     (case startDate0 of
        None \<Rightarrow> (Inr None, clk)
      | Some sd \<Rightarrow>
          let (uid0, clk1) =
                (if uid event \<noteq> [] then (uid event, clk)
                 else (''unknown_'' @ show_int (clk 0), clock_tick clk));
              endDate0 =
                (case duration event of
                   Some secs \<Rightarrow> sd + secs * 1000
                 | None \<Rightarrow>
                     (case endDate event of
                        Some originalEnd \<Rightarrow>
                          (case startDate event of
                             Some originalStart \<Rightarrow>
                               sd + (toJSDate originalEnd - toJSDate originalStart)
                           | None \<Rightarrow> sd + 60 * 60 * 1000)
                      | None \<Rightarrow> sd + 60 * 60 * 1000))
          in case toISOString sd of
               Inl e \<Rightarrow> (Inl e, clk1)
             | Inr startIso \<Rightarrow>
                 (case toISOString endDate0 of
                    Inl e \<Rightarrow> (Inl e, clk1)
                  | Inr endIso \<Rightarrow>
                      (Inr (Some \<lparr> id' = uid0 @ ''_'' @ dateStr startIso,
                                   subject = (if summary event \<noteq> [] then summary event else ''No Title''),
                                   start_time = startIso,
                                   end_time = endIso,
                                   location = ical_location event,
                                   organizer_email = (case organizer event of Some s \<Rightarrow> s | None \<Rightarrow> []),
                                   organizer_name = [],
                                   attendees = [],
                                   body_preview = description event,
                                   is_all_day = (case startDate event of Some t \<Rightarrow> isDate t | None \<Rightarrow> False),
                                   source = source_str src,
                                   created_at = None,
                                   updated_at = iso_format (clk1 0) \<rparr>),
                       clock_tick clk1)))"

text \<open>
  The \<open>while\<close> loop of \<open>expandEvent\<close>, entered with \<open>count\<close> candidates taken
  and call number \<open>count\<close> of \<open>next()\<close> about to be made. It returns the exception
  that left the loop, if any, the \<open>results\<close> array, the number of candidates the loop
  body has taken, and the clock.
\<close>

function expand_loop ::
  "clock \<Rightarrow> ICAL_Event \<Rightarrow> int \<Rightarrow> int \<Rightarrow> sync_source \<Rightarrow> nat \<Rightarrow> Appointment list
     \<Rightarrow> thrown option \<times> Appointment list \<times> nat \<times> clock" where
  "expand_loop clk event rangeStart rangeEnd src count results =
     (case iterator event count of
        Raise e \<Rightarrow> (Some e, results, count, clk)
      | Exhausted \<Rightarrow> (None, results, count, clk)
      | Candidate next \<Rightarrow>
          if \<not> count < maxIterations then (None, results, count, clk)
          else
            let occurrenceDate = toJSDate next in
            if occurrenceDate > rangeEnd then (None, results, count, clk)
            else if occurrenceDate \<ge> rangeStart then
              (case createEventRecord clk event (Some occurrenceDate) src of
                 (Inl e, clk') \<Rightarrow> (Some e, results, count, clk')
               | (Inr occurrence, clk') \<Rightarrow>
                   expand_loop clk' event rangeStart rangeEnd src (Suc count)
                     (case occurrence of Some a \<Rightarrow> results @ [a] | None \<Rightarrow> results))
            else expand_loop clk event rangeStart rangeEnd src (Suc count) results)"
  by pat_completeness auto
termination
  by (relation "measure (\<lambda>(clk, event, rangeStart, rangeEnd, src, count, results).
                   maxIterations - count)") auto

text \<open>An occurrence without its last-updated stamp.\<close>

definition strip_updated :: "Appointment \<Rightarrow> Appointment" where
  "strip_updated a = a\<lparr> updated_at := [] \<rparr>"

definition isStatusWord :: "string \<Rightarrow> bool" where
  "isStatusWord subj = list_ex (\<lambda>sw. str_includes (toLowerCase subj) (toLowerCase sw)) STATUS_WORDS"

definition expandEvent ::
  "clock \<Rightarrow> ICAL_Event \<Rightarrow> int \<Rightarrow> int \<Rightarrow> sync_source \<Rightarrow> (thrown + Appointment list) \<times> clock" where
  "expandEvent clk event rangeStart rangeEnd src =
     (if src = Ics \<and> isStatusWord (summary event) \<and>
         (case (startDate event, endDate event) of
            (Some s, Some e) \<Rightarrow> toJSDate e - toJSDate s \<ge> 24 * (1000 * 60 * 60)
          | _ \<Rightarrow> False)
      then (Inr [], clk)
      else if isRecurring event then
        (case expand_loop clk event rangeStart rangeEnd src 0 [] of
           (None, results, count, clk') \<Rightarrow> (Inr results, clk')
         | (Some recurErr, results, count, clk') \<Rightarrow>
             (case createEventRecord clk' event (map_option toJSDate (startDate event)) src of
                (Inl e, clk'') \<Rightarrow> (Inl e, clk'')
              | (Inr occurrence, clk'') \<Rightarrow>
                  (Inr (case occurrence of Some a \<Rightarrow> results @ [a] | None \<Rightarrow> results), clk'')))
      else
        (case startDate event of
           Some t \<Rightarrow>
             if toJSDate t \<ge> rangeStart \<and> toJSDate t \<le> rangeEnd then
               (case createEventRecord clk event (Some (toJSDate t)) src of
                  (Inl e, clk') \<Rightarrow> (Inl e, clk')
                | (Inr record, clk') \<Rightarrow>
                    (Inr (case record of Some a \<Rightarrow> [a] | None \<Rightarrow> []), clk'))
             else (Inr [], clk)
         | None \<Rightarrow> (Inr [], clk)))"

subsection \<open>The events route: conversion, ignore filter and masking\<close>

text \<open>The event the page works with; \<open>is_all_day\<close> is a number there.\<close>

record CalendarEvent =
  ce_id :: string
  ce_subject :: string
  ce_start_time :: string
  ce_end_time :: string
  ce_location :: string
  ce_organizer_email :: string
  ce_organizer_name :: string
  ce_source :: string
  ce_is_all_day :: nat

text \<open>
  A row has the fields of the \<open>Appointment\<close> interface, all strings, so the
  \<open>typeof\<close> tests of the conversion never fire and "invalid" means empty (falsy), or
  a source outside the three known ones.
\<close>

definition toCalendarEvent :: "Appointment option \<Rightarrow> CalendarEvent option" where
  "toCalendarEvent apt0 =
     (case apt0 of
        None \<Rightarrow> None
      | Some apt \<Rightarrow>
          if id' apt = [] then None
          else if start_time apt = [] then None
          else if end_time apt = [] then None
          else if source apt = [] \<or> source apt \<notin> set [''graph_api'', ''ics'', ''apple_calendar''] then None
          else Some \<lparr> ce_id = id' apt,
                      ce_subject = (if subject apt \<noteq> [] then subject apt else ''No Title''),
                      ce_start_time = start_time apt,
                      ce_end_time = end_time apt,
                      ce_location = location apt,
                      ce_organizer_email = organizer_email apt,
                      ce_organizer_name = organizer_name apt,
                      ce_source = source apt,
                      ce_is_all_day = (if is_all_day apt then 1 else 0) \<rparr>)"

text \<open>The callback of the first \<open>filter\<close> of the handler.\<close>

definition not_ignored :: "string set \<Rightarrow> string set \<Rightarrow> Appointment \<Rightarrow> bool" where
  "not_ignored ignoredBaseSet ignoredEventSet apt =
     (if id' apt \<in> ignoredEventSet then False
      else let baseId = getBaseIdFromEventId (id' apt) in
        if baseId \<in> ignoredBaseSet then False else True)"

text \<open>The callback of the \<open>map\<close>: conversion, then masking of personal events.\<close>

definition convert_and_mask :: "bool \<Rightarrow> Appointment \<Rightarrow> CalendarEvent option" where
  "convert_and_mask personalRevealed apt =
     (case toCalendarEvent (Some apt) of
        None \<Rightarrow> None
      | Some event \<Rightarrow>
          if source apt = ''apple_calendar'' \<and> \<not> personalRevealed
          then Some (event\<lparr> ce_subject := ''[Personal Event]'', ce_location := [] \<rparr>)
          else Some event)"

definition GET_events ::
  "bool \<Rightarrow> string set \<Rightarrow> string set \<Rightarrow> Appointment list \<Rightarrow> CalendarEvent list" where
  "GET_events personalRevealed ignoredBaseSet ignoredEventSet appointments =
     map the
       (filter (\<lambda>event. event \<noteq> None)
          (map (convert_and_mask personalRevealed)
             (filter (not_ignored ignoredBaseSet ignoredEventSet) appointments)))"

text \<open>\<open>parseInt(s, 10)\<close>: white space, an optional sign, then the decimal digits.\<close>

definition digit_value :: "char \<Rightarrow> nat" where
  "digit_value c = length (takeWhile (\<lambda>d. d \<noteq> c) ''0123456789'')"

definition parseInt :: "string \<Rightarrow> int option" where
  "parseInt s =
     (let t = dropWhile is_space s;
          neg = (t \<noteq> [] \<and> hd t = CHR ''-'');
          u = (if t \<noteq> [] \<and> (hd t = CHR ''-'' \<or> hd t = CHR ''+'') then tl t else t);
          ds = takeWhile is_digit u
      in if ds = [] then None
         else let n = int (foldl (\<lambda>acc c. 10 * acc + digit_value c) 0 ds)
              in Some (if neg then - n else n))"

text \<open>
  What a query of the store answers: it throws, or it returns \<open>data\<close> and \<open>error\<close>.
  The handler only selects; the store it leaves is the store it found.
\<close>

record 'a reply =
  data :: "'a option"
  error :: "string option"

record events_store =
  appointments_in_range :: "thrown + (Appointment list) reply"
  ignored_base_ids :: "thrown + (string list) reply"
  ignored_event_ids :: "thrown + (string list) reply"

record events_request =
  days :: "string option"
  lifesynced_personal_reveal :: "string option"

datatype events_response = EventsJson "CalendarEvent list" | ErrorJson nat string

text \<open>\<open>data || []\<close>\<close>

definition rows_or_empty :: "('a list) reply \<Rightarrow> 'a list" where
  "rows_or_empty r = (case data r of Some rows \<Rightarrow> rows | None \<Rightarrow> [])"

definition GET :: "events_request \<Rightarrow> events_store \<Rightarrow> events_response \<times> events_store" where
  "GET request db =
     (let daysParam = (case days request of Some s \<Rightarrow> if s \<noteq> [] then s else ''30'' | None \<Rightarrow> ''30'') in
      case parseInt daysParam of
        None \<Rightarrow> (ErrorJson 400 ''Invalid days parameter. Must be between 1 and 365.'', db)
      | Some daysAhead \<Rightarrow>
          if daysAhead < 1 \<or> daysAhead > 365
          then (ErrorJson 400 ''Invalid days parameter. Must be between 1 and 365.'', db)
          else
            let personalRevealed = (lifesynced_personal_reveal request = Some ''revealed'') in
            case appointments_in_range db of
              Inl e \<Rightarrow> (ErrorJson 500 ''Internal server error'', db)
            | Inr apts \<Rightarrow>
                if error apts \<noteq> None then (ErrorJson 500 ''Failed to fetch events'', db)
                else
                  (case ignored_base_ids db of
                     Inl e \<Rightarrow> (ErrorJson 500 ''Internal server error'', db)
                   | Inr bases \<Rightarrow>
                       (case ignored_event_ids db of
                          Inl e \<Rightarrow> (ErrorJson 500 ''Internal server error'', db)
                        | Inr evs \<Rightarrow>
                            let ignoredBaseSet = set (rows_or_empty bases);
                                ignoredEventSet = set (rows_or_empty evs)
                            in (EventsJson
                                  (GET_events personalRevealed ignoredBaseSet ignoredEventSet
                                     (rows_or_empty apts)),
                                db))))"

subsection \<open>The page: overlap detection\<close>

text \<open>
  \<open>new Date(s).getTime()\<close> is a parameter \<open>getTime\<close> of the model, \<open>None\<close> for NaN;
  a comparison with NaN is false.
\<close>

definition js_lt :: "int option \<Rightarrow> int option \<Rightarrow> bool" where
  "js_lt a b = (case (a, b) of (Some x, Some y) \<Rightarrow> x < y | _ \<Rightarrow> False)"

definition js_gt :: "int option \<Rightarrow> int option \<Rightarrow> bool" where
  "js_gt a b = (case (a, b) of (Some x, Some y) \<Rightarrow> x > y | _ \<Rightarrow> False)"

definition isEventIgnored :: "string set \<Rightarrow> string set \<Rightarrow> CalendarEvent \<Rightarrow> bool" where
  "isEventIgnored ignoredBaseIds ignoredEventIds ev =
     (if ce_id ev \<in> ignoredEventIds then True
      else let baseId = page_getBaseIdFromEventId (ce_id ev) in
        if baseId \<in> ignoredBaseIds then True else False)"

definition isAllDayOrMultiDayFree :: "(string \<Rightarrow> int option) \<Rightarrow> CalendarEvent \<Rightarrow> bool" where
  "isAllDayOrMultiDayFree getTime ev =
     (if ce_subject ev \<noteq> ''[Free]'' \<and> ce_subject ev \<noteq> ''Free'' then False
      else if ce_is_all_day ev \<noteq> 0 then True
      else (case (getTime (ce_start_time ev), getTime (ce_end_time ev)) of
              (Some start, Some end') \<Rightarrow> end' - start \<ge> 24 * (1000 * 60 * 60)
            | _ \<Rightarrow> False))"

definition personalEvents ::
  "(string \<Rightarrow> int option) \<Rightarrow> string set \<Rightarrow> string set \<Rightarrow> CalendarEvent list \<Rightarrow> CalendarEvent list" where
  "personalEvents getTime ignoredBaseIds ignoredEventIds events =
     filter (\<lambda>e. ce_source e = ''apple_calendar'' \<and>
                 \<not> isEventIgnored ignoredBaseIds ignoredEventIds e \<and>
                 \<not> isAllDayOrMultiDayFree getTime e) events"

definition workEvents :: "string set \<Rightarrow> string set \<Rightarrow> CalendarEvent list \<Rightarrow> CalendarEvent list" where
  "workEvents ignoredBaseIds ignoredEventIds events =
     filter (\<lambda>e. (ce_source e = ''graph_api'' \<or> ce_source e = ''ics'') \<and>
                 \<not> isEventIgnored ignoredBaseIds ignoredEventIds e) events"

definition times_overlap :: "(string \<Rightarrow> int option) \<Rightarrow> CalendarEvent \<Rightarrow> CalendarEvent \<Rightarrow> bool" where
  "times_overlap getTime personalEvent workEvent =
     (js_lt (getTime (ce_start_time personalEvent)) (getTime (ce_end_time workEvent)) \<and>
      js_gt (getTime (ce_end_time personalEvent)) (getTime (ce_start_time workEvent)))"

definition getOverlappingEventIds ::
  "(string \<Rightarrow> int option) \<Rightarrow> bool \<Rightarrow> string set \<Rightarrow> string set \<Rightarrow> CalendarEvent list \<Rightarrow> string set" where
  "getOverlappingEventIds getTime detectOverlap ignoredBaseIds ignoredEventIds events =
     (if \<not> detectOverlap then {}
      else
        fold (\<lambda>personalEvent overlappingIds.
                fold (\<lambda>workEvent overlappingIds.
                        if times_overlap getTime personalEvent workEvent
                        then insert (ce_id workEvent) (insert (ce_id personalEvent) overlappingIds)
                        else overlappingIds)
                     (workEvents ignoredBaseIds ignoredEventIds events) overlappingIds)
             (personalEvents getTime ignoredBaseIds ignoredEventIds events) {})"

subsection \<open>The page: column layout of one day\<close>

text \<open>
  \<open>getHours()\<close> and \<open>getMinutes()\<close> of \<open>new Date(s)\<close> in the viewer's time zone are
  parameters. Hours are rationals: \<open>h + m / 60\<close> is compared, never printed. The model
  stops at the slots with their \<open>column\<close> and \<open>totalColumns\<close>; the percent strings
  made from them are not modelled.
\<close>

record slot =
  event :: CalendarEvent
  startHour :: rat
  endHour :: rat
  column :: nat
  totalColumns :: nat

definition gridStartHour :: rat where
  "gridStartHour = 0"

definition gridEndHour :: rat where
  "gridEndHour = 24"

definition to_slot :: "(string \<Rightarrow> nat) \<Rightarrow> (string \<Rightarrow> nat) \<Rightarrow> CalendarEvent \<Rightarrow> slot" where
  "to_slot getHours getMinutes ev =
     (let startHour0 = of_nat (getHours (ce_start_time ev)) + of_nat (getMinutes (ce_start_time ev)) / 60;
          endHour0 = of_nat (getHours (ce_end_time ev)) + of_nat (getMinutes (ce_end_time ev)) / 60
      in \<lparr> event = ev,
           startHour = max gridStartHour (min gridEndHour startHour0),
           endHour = max gridStartHour (min gridEndHour endHour0),
           column = 0,
           totalColumns = 1 \<rparr>)"

text \<open>The comparator of the sort, and the stable sort by it.\<close>

definition slot_compare :: "slot \<Rightarrow> slot \<Rightarrow> rat" where
  "slot_compare a b =
     (if startHour a \<noteq> startHour b then startHour a - startHour b
      else endHour b - endHour a)"

fun insert_slot :: "slot \<Rightarrow> slot list \<Rightarrow> slot list" where
  "insert_slot x [] = [x]"
| "insert_slot x (y # ys) =
     (if slot_compare x y \<le> 0 then x # y # ys else y # insert_slot x ys)"

definition sort_slots :: "slot list \<Rightarrow> slot list" where
  "sort_slots xs = foldr insert_slot xs []"

definition slots_overlap :: "slot \<Rightarrow> slot \<Rightarrow> bool" where
  "slots_overlap s g = (startHour s < endHour g \<and> endHour s > startHour g)"

text \<open>The \<open>while (true)\<close> search for the first column no overlapping member uses.\<close>

function first_free_column :: "slot list \<Rightarrow> slot \<Rightarrow> nat \<Rightarrow> nat" where
  "first_free_column members s col =
     (if list_ex (\<lambda>g. column g = col \<and> slots_overlap s g) members
      then first_free_column members s (Suc col)
      else col)"
  by pat_completeness auto
termination
proof (relation "measure (\<lambda>(members, s, col). Suc (Max (column ` set members)) - col)")
  show "wf (measure (\<lambda>(members, s, col). Suc (Max (column ` set members)) - col))"
    by simp
next
  fix members :: "slot list" and s :: slot and col :: nat
  assume "list_ex (\<lambda>g. column g = col \<and> slots_overlap s g) members"
  then obtain g where "g \<in> set members" "column g = col"
    by (auto simp: list_ex_iff)
  then have "col \<le> Max (column ` set members)"
    by (intro Max_ge) auto
  then show "((members, s, Suc col), (members, s, col))
               \<in> measure (\<lambda>(members, s, col). Suc (Max (column ` set members)) - col)"
    by simp
qed

text \<open>
  The slot objects are shared between the \<open>slots\<close> array and the groups, so the
  array is the store and a group is the list of the positions of its members.
  \<open>place_slot\<close> is one turn of the outer \<open>for\<close> loop: the walk through \<open>groups\<close> that
  stops at the first group the slot overlaps, and the new group when there is none.
\<close>

fun place_slot :: "slot list \<Rightarrow> nat \<Rightarrow> nat list list \<Rightarrow> slot list \<times> nat list list" where
  "place_slot slots i [] = (slots[i := (slots ! i)\<lparr> column := 0 \<rparr>], [[i]])"
| "place_slot slots i (grp # groups) =
     (if list_ex (\<lambda>g. slots_overlap (slots ! i) (slots ! g)) grp
      then (slots[i := (slots ! i)\<lparr> column := first_free_column (map (\<lambda>g. slots ! g) grp) (slots ! i) 0 \<rparr>],
            (grp @ [i]) # groups)
      else (case place_slot slots i groups of (slots', groups') \<Rightarrow> (slots', grp # groups')))"

definition assign_columns :: "slot list \<Rightarrow> slot list \<times> nat list list" where
  "assign_columns slots0 =
     fold (\<lambda>i (slots, groups). place_slot slots i groups) [0 ..< length slots0] (slots0, [])"

definition write_total :: "nat list \<Rightarrow> slot list \<Rightarrow> slot list" where
  "write_total grp slots =
     (let maxCol = Max (set (map (\<lambda>g. column (slots ! g)) grp)) + 1
      in fold (\<lambda>g slots. slots[g := (slots ! g)\<lparr> totalColumns := maxCol \<rparr>]) grp slots)"

definition layout_slots :: "(string \<Rightarrow> nat) \<Rightarrow> (string \<Rightarrow> nat) \<Rightarrow> CalendarEvent list \<Rightarrow> slot list" where
  "layout_slots getHours getMinutes events =
     (case assign_columns (sort_slots (map (to_slot getHours getMinutes) events)) of
        (slots, groups) \<Rightarrow> fold write_total groups slots)"

text \<open>
  The returned map, with the four percentages as numbers: top, height, left, width.
  A later slot with the same event id overwrites an earlier one.
\<close>

definition calculateEventLayout ::
  "(string \<Rightarrow> nat) \<Rightarrow> (string \<Rightarrow> nat) \<Rightarrow> CalendarEvent list \<Rightarrow> (string \<rightharpoonup> rat \<times> rat \<times> rat \<times> rat)" where
  "calculateEventLayout getHours getMinutes events =
     fold (\<lambda>s layout.
             let gridHeight = gridEndHour - gridStartHour;
                 topPercent = (startHour s - gridStartHour) / gridHeight * 100;
                 heightPercent = (endHour s - startHour s) / gridHeight * 100;
                 widthPercent = 100 / of_nat (totalColumns s);
                 leftPercent = of_nat (column s) * widthPercent
             in layout(ce_id (event s) \<mapsto> (topPercent, max heightPercent 2, leftPercent, widthPercent)))
          (layout_slots getHours getMinutes events) Map.empty"

subsection \<open>The sync route: one feed, and the whole pass\<close>

record SyncResult =
  sr_source :: string
  added :: nat
  updated :: nat
  errors :: "string list"

record http_response =
  ok :: bool
  status :: nat
  statusText :: string
  text_body :: "thrown + string"

text \<open>
  The world outside the handler: the two environment variables, \<open>fetch\<close>, the
  library's parser (the \<open>vevent\<close> components of a calendar text, each of which
  \<open>new ICAL.Event\<close> turns into an event or rejects), local-calendar arithmetic on
  dates (\<open>setDate(getDate() + n)\<close>), and the two writes to the store.
\<close>

record sync_world =
  OUTLOOK_ICS_URL :: "string option"
  APPLE_CALENDAR_ICS_URL :: "string option"
  fetch :: "string \<Rightarrow> thrown + http_response"
  ICAL_parse :: "string \<Rightarrow> thrown + (thrown + ICAL_Event) list"
  add_days :: "int \<Rightarrow> int \<Rightarrow> int"
  upsert_appointments :: "Appointment list \<Rightarrow> thrown + string option"
  upsert_sync_metadata :: "thrown + string option"

text \<open>\<open>Map.set\<close>: a new key goes to the end, an old key keeps its place.\<close>

fun map_set :: "(string \<times> 'a) list \<Rightarrow> string \<Rightarrow> 'a \<Rightarrow> (string \<times> 'a) list" where
  "map_set [] k v = [(k, v)]"
| "map_set ((k', v') # m) k v = (if k' = k then (k, v) # m else (k', v') # map_set m k v)"

definition dedupe :: "Appointment list \<Rightarrow> Appointment list" where
  "dedupe eventsToUpsert =
     map snd (fold (\<lambda>ev uniqueEvents. if id' ev \<noteq> [] then map_set uniqueEvents (id' ev) ev
                                     else uniqueEvents) eventsToUpsert [])"

text \<open>The loop over the \<open>vevent\<close> components, with its own \<open>try\<close>.\<close>

fun expand_all ::
  "clock \<Rightarrow> int \<Rightarrow> int \<Rightarrow> sync_source \<Rightarrow> (thrown + ICAL_Event) list \<Rightarrow> Appointment list \<Rightarrow> string list
     \<Rightarrow> Appointment list \<times> string list \<times> clock" where
  "expand_all clk rangeStart rangeEnd src [] eventsToUpsert errs = (eventsToUpsert, errs, clk)"
| "expand_all clk rangeStart rangeEnd src (vevent # vevents) eventsToUpsert errs =
     (case vevent of
        Inl err \<Rightarrow>
          expand_all clk rangeStart rangeEnd src vevents eventsToUpsert
            (errs @ [''Failed to parse event: '' @ error_message err])
      | Inr ev \<Rightarrow>
          (case expandEvent clk ev rangeStart rangeEnd src of
             (Inl err, clk') \<Rightarrow>
               expand_all clk' rangeStart rangeEnd src vevents eventsToUpsert
                 (errs @ [''Failed to parse event: '' @ error_message err])
           | (Inr evs, clk') \<Rightarrow>
               expand_all clk' rangeStart rangeEnd src vevents (eventsToUpsert @ evs) errs))"

definition syncIcsCalendar :: "sync_world \<Rightarrow> clock \<Rightarrow> string \<Rightarrow> sync_source \<Rightarrow> SyncResult \<times> clock" where
  "syncIcsCalendar w clk url src =
     (let result = \<lparr> sr_source = source_str src, added = 0, updated = 0, errors = [] \<rparr> in
      case fetch w url of
        Inl err \<Rightarrow> (result\<lparr> errors := [error_message err] \<rparr>, clk)
      | Inr response \<Rightarrow>
          if \<not> ok response
          then (result\<lparr> errors := [''Failed to fetch ICS: '' @ dec_str (status response) @ '' '' @
                                     statusText response] \<rparr>, clk)
          else
            (case text_body response of
               Inl err \<Rightarrow> (result\<lparr> errors := [error_message err] \<rparr>, clk)
             | Inr icsData \<Rightarrow>
                 (case ICAL_parse w icsData of
                    Inl err \<Rightarrow> (result\<lparr> errors := [error_message err] \<rparr>, clk)
                  | Inr vevents \<Rightarrow>
                      let rangeStart = add_days w (clk 0) (- 7);
                          rangeEnd = add_days w (clk 1) 90
                      in case expand_all (clock_tick (clock_tick clk)) rangeStart rangeEnd src vevents [] [] of
                           (eventsToUpsert, errs, clk') \<Rightarrow>
                             if length eventsToUpsert > 0 then
                               (let dedupedEvents = dedupe eventsToUpsert in
                                case upsert_appointments w dedupedEvents of
                                  Inl err \<Rightarrow> (result\<lparr> errors := errs @ [error_message err] \<rparr>, clk')
                                | Inr (Some msg) \<Rightarrow>
                                    (result\<lparr> errors := errs @ [''Database error: '' @ msg] \<rparr>, clk')
                                | Inr None \<Rightarrow>
                                    (result\<lparr> added := length dedupedEvents, errors := errs \<rparr>, clk'))
                             else (result\<lparr> errors := errs \<rparr>, clk'))))"

record sync_response =
  http_status :: nat
  success :: bool
  message :: "string option"
  error_text :: "string option"
  details :: "string option"
  results :: "SyncResult list"
  all_errors :: "string list option"

fun sync_feeds :: "sync_world \<Rightarrow> clock \<Rightarrow> sync_source \<Rightarrow> string list \<Rightarrow> SyncResult list \<times> clock" where
  "sync_feeds w clk src [] = ([], clk)"
| "sync_feeds w clk src (url # urls) =
     (case syncIcsCalendar w clk url src of
        (result, clk') \<Rightarrow>
          (case sync_feeds w clk' src urls of (rs, clk'') \<Rightarrow> (result # rs, clk'')))"

definition configured_feeds :: "sync_world \<Rightarrow> string list \<times> string list" where
  "configured_feeds w =
     ((case OUTLOOK_ICS_URL w of Some u \<Rightarrow> if u \<noteq> [] then [u] else [] | None \<Rightarrow> []),
      (case APPLE_CALENDAR_ICS_URL w of
         Some us \<Rightarrow> if us \<noteq> [] then filter (\<lambda>u. u \<noteq> []) (map trim (split_on CHR '','' us)) else []
       | None \<Rightarrow> []))"

definition POST :: "sync_world \<Rightarrow> clock \<Rightarrow> sync_response" where
  "POST w clk =
     (case sync_feeds w clk Ics (fst (configured_feeds w)) of
        (outlookResults, clk') \<Rightarrow>
          (case sync_feeds w clk' AppleCalendar (snd (configured_feeds w)) of
             (appleResults, clk'') \<Rightarrow>
               let results0 = outlookResults @ appleResults in
               (case upsert_sync_metadata w of
                  Inl err \<Rightarrow>
                    \<lparr> http_status = 500, success = False, message = None,
                      error_text = Some ''Sync failed'', details = Some (error_message err),
                      results = results0, all_errors = None \<rparr>
                | Inr _ \<Rightarrow>
                    let totalAdded = sum_list (map added results0);
                        totalUpdated = sum_list (map updated results0);
                        allErrors = concat (map errors results0)
                    in \<lparr> http_status = 200, success = True,
                         message = Some (''Sync complete: '' @ dec_str totalAdded @ '' added, '' @
                                         dec_str totalUpdated @ '' updated''),
                         error_text = None, details = None,
                         results = results0,
                         all_errors = (if length allErrors > 0 then Some allErrors else None) \<rparr>)))"

subsection \<open>Concrete inputs\<close>

definition zero_clock :: clock where
  "zero_clock = (\<lambda>n. 0)"

text \<open>A single event, half an hour long, at the epoch.\<close>

definition single_event :: ICAL_Event where
  "single_event =
     \<lparr> uid = ''abc'', summary = ''Dentist'', description = [], ical_location = [],
       startDate = Some \<lparr> toJSDate = 0, isDate = False \<rparr>,
       endDate = Some \<lparr> toJSDate = 1800000, isDate = False \<rparr>,
       duration = None, organizer = None, isRecurring = False,
       iterator = (\<lambda>k. Exhausted) \<rparr>"

definition single_record :: Appointment where
  "single_record =
     \<lparr> id' = ''abc_19700101T000000'', subject = ''Dentist'',
       start_time = ''1970-01-01T00:00:00.000Z'', end_time = ''1970-01-01T00:30:00.000Z'',
       location = [], organizer_email = [], organizer_name = [], attendees = [],
       body_preview = [], is_all_day = False, source = ''ics'', created_at = None,
       updated_at = ''1970-01-01T00:00:00.000Z'' \<rparr>"

text \<open>A weekly series without end; its record at a candidate, by id, start, end and stamp.\<close>

definition weekly_event :: ICAL_Event where
  "weekly_event =
     \<lparr> uid = ''standup'', summary = ''Standup'', description = [], ical_location = ''Room 1'',
       startDate = Some \<lparr> toJSDate = 0, isDate = False \<rparr>,
       endDate = Some \<lparr> toJSDate = 1800000, isDate = False \<rparr>,
       duration = None, organizer = None, isRecurring = True,
       iterator = (\<lambda>k. Candidate \<lparr> toJSDate = int k * 604800000, isDate = False \<rparr>) \<rparr>"

definition weekly_record :: "string \<Rightarrow> string \<Rightarrow> string \<Rightarrow> string \<Rightarrow> Appointment" where
  "weekly_record i s e u =
     \<lparr> id' = i, subject = ''Standup'', start_time = s, end_time = e,
       location = ''Room 1'', organizer_email = [], organizer_name = [], attendees = [],
       body_preview = [], is_all_day = False, source = ''ics'', created_at = None,
       updated_at = u \<rparr>"

text \<open>A clock one day after the epoch.\<close>

definition late_clock :: clock where
  "late_clock = (\<lambda>n. 86400000)"

text \<open>A series whose rule iterator throws at once.\<close>

definition broken_event :: ICAL_Event where
  "broken_event =
     \<lparr> uid = ''broken'', summary = ''Review'', description = [], ical_location = [],
       startDate = Some \<lparr> toJSDate = 0, isDate = False \<rparr>,
       endDate = Some \<lparr> toJSDate = 1800000, isDate = False \<rparr>,
       duration = None, organizer = None, isRecurring = True,
       iterator = (\<lambda>k. Raise (ErrorObj ''invalid rule'')) \<rparr>"

definition broken_record :: Appointment where
  "broken_record =
     \<lparr> id' = ''broken_19700101T000000'', subject = ''Review'',
       start_time = ''1970-01-01T00:00:00.000Z'', end_time = ''1970-01-01T00:30:00.000Z'',
       location = [], organizer_email = [], organizer_name = [], attendees = [],
       body_preview = [], is_all_day = False, source = ''ics'', created_at = None,
       updated_at = ''1970-01-01T00:00:00.000Z'' \<rparr>"

text \<open>Rows of the store, events of the page, and the instants of the time strings used.\<close>

definition row :: "string \<Rightarrow> string \<Rightarrow> string \<Rightarrow> string \<Rightarrow> bool \<Rightarrow> string \<Rightarrow> Appointment" where
  "row i subj s e allDay src =
     \<lparr> id' = i, subject = subj, start_time = s, end_time = e, location = ''Office'',
       organizer_email = [], organizer_name = [], attendees = [], body_preview = [],
       is_all_day = allDay, source = src, created_at = Some ''2024-12-01T00:00:00+00:00'',
       updated_at = ''2024-12-01T00:00:00+00:00'' \<rparr>"

definition cal :: "string \<Rightarrow> string \<Rightarrow> string \<Rightarrow> string \<Rightarrow> nat \<Rightarrow> string \<Rightarrow> string \<Rightarrow> CalendarEvent" where
  "cal i subj s e allDay src loc =
     \<lparr> ce_id = i, ce_subject = subj, ce_start_time = s, ce_end_time = e, ce_location = loc,
       ce_organizer_email = [], ce_organizer_name = [], ce_source = src, ce_is_all_day = allDay \<rparr>"

definition day_times :: "string \<Rightarrow> int option" where
  "day_times = map_of
     [(''2025-01-01T00:00:00+00:00'', 1735689600000),
      (''2025-01-01T10:00:00+00:00'', 1735725600000),
      (''2025-01-01T10:30:00+00:00'', 1735727400000),
      (''2025-01-01T11:00:00+00:00'', 1735729200000),
      (''2025-01-01T11:30:00+00:00'', 1735731000000),
      (''2025-01-01T12:00:00+00:00'', 1735732800000),
      (''2025-01-02T00:00:00+00:00'', 1735776000000)]"

definition free_row :: Appointment where
  "free_row = row ''free_20250101T000000'' ''Free'' ''2025-01-01T00:00:00+00:00''
                ''2025-01-02T00:00:00+00:00'' True ''apple_calendar''"

definition yoga_row :: Appointment where
  "yoga_row = row ''yoga_20250101T100000'' ''Yoga'' ''2025-01-01T10:00:00+00:00''
                ''2025-01-01T11:00:00+00:00'' False ''apple_calendar''"

definition review_row :: Appointment where
  "review_row = row ''review_20250101T103000'' ''Review'' ''2025-01-01T10:30:00+00:00''
                  ''2025-01-01T11:30:00+00:00'' False ''ics''"

definition lunch_row :: Appointment where
  "lunch_row = row ''lunch_20250101T110000'' ''Lunch'' ''2025-01-01T11:00:00+00:00''
                 ''2025-01-01T12:00:00+00:00'' False ''ics''"

definition store_with :: "Appointment list \<Rightarrow> string list \<Rightarrow> string list \<Rightarrow> events_store" where
  "store_with rows bases ids =
     \<lparr> appointments_in_range = Inr \<lparr> data = Some rows, error = None \<rparr>,
       ignored_base_ids = Inr \<lparr> data = Some bases, error = None \<rparr>,
       ignored_event_ids = Inr \<lparr> data = Some ids, error = None \<rparr> \<rparr>"

definition request_hidden :: events_request where
  "request_hidden = \<lparr> days = None, lifesynced_personal_reveal = None \<rparr>"

definition request_revealed :: events_request where
  "request_revealed = \<lparr> days = None, lifesynced_personal_reveal = Some ''revealed'' \<rparr>"

definition review_event :: CalendarEvent where
  "review_event = cal ''review_20250101T103000'' ''Review'' ''2025-01-01T10:30:00+00:00''
                    ''2025-01-01T11:30:00+00:00'' 0 ''ics'' ''Office''"

definition lunch_event :: CalendarEvent where
  "lunch_event = cal ''lunch_20250101T110000'' ''Lunch'' ''2025-01-01T11:00:00+00:00''
                   ''2025-01-01T12:00:00+00:00'' 0 ''ics'' ''Office''"

definition yoga_event :: CalendarEvent where
  "yoga_event = cal ''yoga_20250101T100000'' ''Yoga'' ''2025-01-01T10:00:00+00:00''
                  ''2025-01-01T11:00:00+00:00'' 0 ''apple_calendar'' ''Office''"

definition free_event :: CalendarEvent where
  "free_event = cal ''free_20250101T000000'' ''Free'' ''2025-01-01T00:00:00+00:00''
                  ''2025-01-02T00:00:00+00:00'' 1 ''apple_calendar'' ''Office''"

definition masked_free_event :: CalendarEvent where
  "masked_free_event = cal ''free_20250101T000000'' ''[Personal Event]'' ''2025-01-01T00:00:00+00:00''
                         ''2025-01-02T00:00:00+00:00'' 1 ''apple_calendar'' []"

definition bad_row :: Appointment where
  "bad_row = row ''imported1'' ''Imported'' ''2025-01-01T10:00:00+00:00''
               ''2025-01-01T11:00:00+00:00'' False ''outlook''"

text \<open>Hour and minute of the time strings in the viewer's zone, and a third event.\<close>

definition day_hours :: "string \<Rightarrow> nat" where
  "day_hours s = (case map_of
     [(''2025-01-01T10:00:00+00:00'', 10), (''2025-01-01T10:30:00+00:00'', 10),
      (''2025-01-01T10:45:00+00:00'', 10), (''2025-01-01T11:00:00+00:00'', 11),
      (''2025-01-01T11:15:00+00:00'', 11), (''2025-01-01T11:30:00+00:00'', 11),
      (''2025-01-01T12:00:00+00:00'', 12)] s of Some h \<Rightarrow> h | None \<Rightarrow> 0)"

definition day_minutes :: "string \<Rightarrow> nat" where
  "day_minutes s = (case map_of
     [(''2025-01-01T10:00:00+00:00'', 0), (''2025-01-01T10:30:00+00:00'', 30),
      (''2025-01-01T10:45:00+00:00'', 45), (''2025-01-01T11:00:00+00:00'', 0),
      (''2025-01-01T11:15:00+00:00'', 15), (''2025-01-01T11:30:00+00:00'', 30),
      (''2025-01-01T12:00:00+00:00'', 0)] s of Some m \<Rightarrow> m | None \<Rightarrow> 0)"

definition standup_event :: CalendarEvent where
  "standup_event = cal ''standup_20250101T104500'' ''Standup'' ''2025-01-01T10:45:00+00:00''
                     ''2025-01-01T11:15:00+00:00'' 0 ''ics'' ''Office''"

text \<open>Both feeds are configured and every fetch fails; the metadata write succeeds.\<close>

definition failing_world :: sync_world where
  "failing_world =
     \<lparr> OUTLOOK_ICS_URL = Some ''https://work.example/cal.ics'',
       APPLE_CALENDAR_ICS_URL = Some ''https://home.example/cal.ics'',
       fetch = (\<lambda>url. Inl (ErrorObj ''fetch failed'')),
       ICAL_parse = (\<lambda>s. Inr []),
       add_days = (\<lambda>t n. t + n * 86400000),
       upsert_appointments = (\<lambda>rows. Inr None),
       upsert_sync_metadata = Inr None \<rparr>"

text \<open>The same, with a store client that throws.\<close>

definition unconfigured_world :: sync_world where
  "unconfigured_world =
     failing_world\<lparr> upsert_sync_metadata :=
       Inl (ErrorObj ''Supabase environment variables not configured.'') \<rparr>"

definition fetch_failed_results :: "SyncResult list" where
  "fetch_failed_results =
     [\<lparr> sr_source = ''ics'', added = 0, updated = 0, errors = [''fetch failed''] \<rparr>,
      \<lparr> sr_source = ''apple_calendar'', added = 0, updated = 0, errors = [''fetch failed''] \<rparr>]"

section \<open>Properties\<close>

declare expand_loop.simps [simp del]

declare dec_str.simps [simp del]

declare first_free_column.simps [simp del]

subsection \<open>Digits, splitting and joining\<close>

lemma digit_char_mem: "digit_char n \<in> set ''0123456789''"
  unfolding digit_char_def by (rule nth_mem) simp

lemma is_digit_digit_char: "is_digit (digit_char n)"
  by (simp only: is_digit_def digit_char_mem)

lemma is_digit_not_sep:
  assumes "is_digit c"
  shows "c \<noteq> CHR ''_''" "c \<noteq> CHR ''-''" "c \<noteq> CHR '':''" "c \<noteq> CHR ''.''" "c \<noteq> CHR ''T''"
  using assms by (auto simp: is_digit_def)

lemmas digit_char_not_sep = is_digit_not_sep [OF is_digit_digit_char]

lemma split_on_nonempty: "split_on c s \<noteq> []"
  by (cases s) (auto split: list.splits)

lemma split_on_append: "split_on c (u @ c # d) = split_on c u @ split_on c d"
proof (induction u)
  case Nil
  show ?case by simp
next
  case (Cons x u)
  obtain p ps where "split_on c u = p # ps"
    using split_on_nonempty [of c u] by (cases "split_on c u") auto
  with Cons show ?case by simp
qed

lemma split_on_no_sep: "c \<notin> set d \<Longrightarrow> split_on c d = [d]"
  by (induction d) auto

lemma join_split: "join_with c (split_on c s) = s"
proof (induction s)
  case Nil
  show ?case by simp
next
  case (Cons x s)
  obtain p ps where ps: "split_on c s = p # ps"
    using split_on_nonempty [of c s] by (cases "split_on c s") auto
  with Cons show ?case by (cases ps) auto
qed

subsection \<open>Ids made by the sync and the base id read back\<close>

lemma getBaseId_strip:
  assumes ts: "isTimestamp ts" and nosep: "CHR ''_'' \<notin> set ts"
  shows "getBaseIdFromEventId (u @ ''_'' @ ts) = u"
proof -
  have parts: "split_on CHR ''_'' (u @ ''_'' @ ts) = split_on CHR ''_'' u @ [ts]"
    using split_on_append [of "CHR ''_''" u ts] split_on_no_sep [OF nosep] by simp
  have len: "\<not> length (split_on CHR ''_'' u @ [ts]) \<le> 1"
    using split_on_nonempty [of "CHR ''_''" u] by (cases "split_on CHR ''_'' u") auto
  show ?thesis
    unfolding getBaseIdFromEventId_def parts Let_def
    using len ts by (simp add: join_split)
qed

lemma dateStr_iso_format:
  assumes "0 \<le> iso_year t" "iso_year t \<le> 9999"
  shows "\<exists>y m d h mi s.
           dateStr (iso_format t) = pad4 y @ pad2 m @ pad2 d @ ''T'' @ pad2 h @ pad2 mi @ pad2 s"
proof -
  obtain y m d where c: "civil_from_days (t div 86400000) = (y, m, d)"
    by (cases "civil_from_days (t div 86400000)") auto
  with assms have y: "0 \<le> y" "y \<le> 9999" by (simp_all add: iso_year_def)
  have "dateStr (iso_format t) = pad4 (nat y) @ pad2 m @ pad2 d @ ''T'' @
      pad2 (nat (t mod 86400000) div 3600000) @ pad2 (nat (t mod 86400000) div 60000 mod 60) @
      pad2 (nat (t mod 86400000) div 1000 mod 60)"
    using y by (simp add: dateStr_def iso_format_def iso_text_def c year_str_def pad2_def pad3_def
        pad4_def digit_char_not_sep)
  then show ?thesis by blast
qed

lemma isTimestamp_pads: "isTimestamp (pad4 y @ pad2 m @ pad2 d @ ''T'' @ pad2 h @ pad2 mi @ pad2 s)"
  by (simp add: isTimestamp_def pad2_def pad4_def is_digit_digit_char)

lemma no_sep_pads: "CHR ''_'' \<notin> set (pad4 y @ pad2 m @ pad2 d @ ''T'' @ pad2 h @ pad2 mi @ pad2 s)"
  by (simp add: pad2_def pad4_def digit_char_not_sep [THEN not_sym])

lemma createEventRecord_SomeD:
  assumes "createEventRecord clk ev (Some sd) src = (Inr (Some a), clk')" "uid ev \<noteq> []"
  shows "valid_date sd" "id' a = uid ev @ ''_'' @ dateStr (iso_format sd)"
    "start_time a = iso_format sd"
  using assms
  by (auto simp: createEventRecord_def toISOString_def Let_def
      split: if_splits sum.splits option.splits)

lemma createEventRecord_not_None:
  "createEventRecord clk ev (Some sd) src \<noteq> (Inr None, clk')"
  by (auto simp: createEventRecord_def toISOString_def Let_def
      split: if_splits sum.splits option.splits prod.splits)

lemma expandEvent_single:
  assumes "\<not> isRecurring ev" "expandEvent clk ev rangeStart rangeEnd src = (Inr out, clk')"
    "b \<in> set out"
  shows "\<exists>t. startDate ev = Some t \<and> rangeStart \<le> toJSDate t \<and> toJSDate t \<le> rangeEnd \<and>
             createEventRecord clk ev (Some (toJSDate t)) src = (Inr (Some b), clk')"
  using assms
  by (auto simp: expandEvent_def split: if_splits option.splits sum.splits prod.splits)

subsection \<open>Evaluation at the concrete inputs\<close>

lemmas date_eval = iso_format_def iso_text_def civil_from_days_def civil_of_era_def
  civil_of_year_def civil_of_month_def year_str_def pad2_def pad3_def pad4_def pad6_def
  digit_char_def

lemma iso_format_0: "iso_format 0 = ''1970-01-01T00:00:00.000Z''"
  by (simp add: date_eval)

lemma iso_format_1800000: "iso_format 1800000 = ''1970-01-01T00:30:00.000Z''"
  by (simp add: date_eval)

lemma single_event_fields:
  "uid single_event = ''abc''" "summary single_event = ''Dentist''"
  "description single_event = []" "ical_location single_event = []"
  "startDate single_event = Some \<lparr> toJSDate = 0, isDate = False \<rparr>"
  "endDate single_event = Some \<lparr> toJSDate = 1800000, isDate = False \<rparr>"
  "duration single_event = None" "organizer single_event = None"
  "isRecurring single_event = False"
  by (simp_all add: single_event_def)

lemma create_single:
  "createEventRecord zero_clock single_event (Some 0) Ics =
     (Inr (Some single_record), clock_tick zero_clock)"
  by (simp add: createEventRecord_def single_event_fields single_record_def toISOString_def
      valid_date_def iso_format_0 iso_format_1800000 dateStr_def zero_clock_def)

lemma not_status_Dentist: "\<not> isStatusWord ''Dentist''"
  by code_simp

lemma expand_single:
  "expandEvent zero_clock single_event 0 1000 Ics = (Inr [single_record], clock_tick zero_clock)"
  by (simp add: expandEvent_def single_event_fields not_status_Dentist create_single)

subsection \<open>C2: base-id recovery\<close>

text \<open>
  What the code does. Every id that \<open>createEventRecord\<close> makes is the UID (or
  \<open>unknown_\<close> and the clock reading, when the event has none), an underscore and
  the compact UTC timestamp of the start. When the UTC year of the start is within
  0000..9999 the timestamp has the shape \<open>YYYYMMDDTHHMMSS\<close> and
  \<open>getBaseIdFromEventId\<close> returns exactly what stands before it.
\<close>

lemma created_id_recovers_uid:
  assumes "createEventRecord clk ev (Some sd) src = (Inr (Some a), clk')"
    and "0 \<le> iso_year sd" and "iso_year sd \<le> 9999"
  shows "id' a = (if uid ev \<noteq> [] then uid ev else ''unknown_'' @ show_int (clk 0)) @ ''_'' @
                   dateStr (iso_format sd)"
    and "isTimestamp (dateStr (iso_format sd))"
    and "getBaseIdFromEventId (id' a) =
           (if uid ev \<noteq> [] then uid ev else ''unknown_'' @ show_int (clk 0))"
proof -
  obtain y m d h mi s
    where ts: "dateStr (iso_format sd) = pad4 y @ pad2 m @ pad2 d @ ''T'' @ pad2 h @ pad2 mi @ pad2 s"
    using dateStr_iso_format [OF assms(2,3)] by blast
  show idd: "id' a = (if uid ev \<noteq> [] then uid ev else ''unknown_'' @ show_int (clk 0)) @ ''_'' @
                   dateStr (iso_format sd)"
    using assms(1)
    by (auto simp: createEventRecord_def toISOString_def Let_def
        split: if_splits sum.splits option.splits)
  show "isTimestamp (dateStr (iso_format sd))"
    unfolding ts by (rule isTimestamp_pads)
  show "getBaseIdFromEventId (id' a) =
           (if uid ev \<noteq> [] then uid ev else ''unknown_'' @ show_int (clk 0))"
    unfolding idd ts by (rule getBaseId_strip [OF isTimestamp_pads no_sep_pads])
qed

lemma single_id_base: "getBaseIdFromEventId ''abc_19700101T000000'' = ''abc''"
proof -
  have "isTimestamp ''19700101T000000''" "CHR ''_'' \<notin> set ''19700101T000000''"
    by (simp_all add: isTimestamp_def is_digit_def)
  from getBaseId_strip [OF this, of "''abc''"] show ?thesis by simp
qed

text \<open>
  C2 fails on the code for a single event. The claim says that a non-recurring event
  keeps its UID as id, so that recovery is a no-op; the page relies on it, taking
  a timestamp suffix as the mark of an occurrence of a recurring series. But the
  single-event branch of \<open>expandEvent\<close> calls the same \<open>createEventRecord\<close>: the
  single event with UID \<open>abc\<close> at the epoch gets the id \<open>abc_19700101T000000\<close>, and
  recovery strips the suffix from it.
\<close>

theorem single_event_id_has_suffix:
  "\<not> isRecurring single_event \<and> uid single_event = ''abc'' \<and>
   fst (expandEvent zero_clock single_event 0 1000 Ics) = Inr [single_record] \<and>
   id' single_record = ''abc_19700101T000000'' \<and>
   id' single_record \<noteq> uid single_event \<and>
   getBaseIdFromEventId (id' single_record) = ''abc''"
  by (simp add: expand_single single_event_fields single_record_def single_id_base)

subsection \<open>The expansion loop\<close>

text \<open>
  What the loop returns: the old results with new ones appended, no more new ones than
  candidates taken, never more than the cap; an exception comes from the iterator
  or from making a record below the cap; every new record was made at a start
  inside the window.
\<close>

lemma expand_loop_results:
  "expand_loop clk ev rs re src count acc = (e, out, n, clk') \<Longrightarrow>
     \<exists>new. out = acc @ new \<and> count \<le> n \<and> (count \<le> maxIterations \<longrightarrow> n \<le> maxIterations) \<and>
       length new \<le> n - count \<and>
       (\<forall>x. e = Some x \<longrightarrow> iterator ev n = Raise x \<or> n < maxIterations) \<and>
       (\<forall>a\<in>set new. \<exists>sd c c'. rs \<le> sd \<and> sd \<le> re \<and>
           createEventRecord c ev (Some sd) src = (Inr (Some a), c'))"
proof (induction clk ev rs re src count acc arbitrary: e out n clk' rule: expand_loop.induct)
  case (1 clk ev rs re src count acc)
  show ?case
  proof (cases "iterator ev count")
    case (Candidate nx)
    show ?thesis
    proof (cases "count < maxIterations \<and> \<not> toJSDate nx > re")
      case False
      with "1.prems" Candidate show ?thesis
        by (subst (asm) expand_loop.simps) (auto simp: Let_def split: if_splits)
    next
      case True
      note go = this
      show ?thesis
      proof (cases "toJSDate nx \<ge> rs")
        case False
        with "1.prems" Candidate go
        have "expand_loop clk ev rs re src (Suc count) acc = (e, out, n, clk')"
          by (subst (asm) expand_loop.simps) (auto simp: Let_def split: if_splits)
        from "1.IH"(2) [OF Candidate _ refl _ _ this] go False
        show ?thesis by auto
      next
        case inwin: True
        show ?thesis
        proof (cases "createEventRecord clk ev (Some (toJSDate nx)) src")
          case (Pair r c1)
          show ?thesis
          proof (cases r)
            case (Inl x)
            with "1.prems" Candidate go inwin Pair show ?thesis
              by (subst (asm) expand_loop.simps) (auto simp: Let_def split: if_splits)
          next
            case (Inr occ)
            with Pair createEventRecord_not_None obtain a where a: "occ = Some a" by (cases occ) auto
            with "1.prems" Candidate go inwin Pair Inr
            have rec: "expand_loop c1 ev rs re src (Suc count)
                         (case occ of None \<Rightarrow> acc | Some a \<Rightarrow> acc @ [a]) = (e, out, n, clk')"
              by (subst (asm) expand_loop.simps) (auto simp: Let_def split: if_splits)
            have em: "\<exists>sd c c'. rs \<le> sd \<and> sd \<le> re \<and>
                createEventRecord c ev (Some sd) src = (Inr (Some a), c')"
              using Pair Inr a go inwin by (intro exI [of _ "toJSDate nx"] exI [of _ clk] exI [of _ c1]) auto
            from "1.IH"(1) [OF Candidate _ refl _ _ Pair [symmetric] Inr rec] go inwin
            obtain new where new: "out = (acc @ [a]) @ new" "Suc count \<le> n"
              "Suc count \<le> maxIterations \<longrightarrow> n \<le> maxIterations" "length new \<le> n - Suc count"
              "\<forall>x. e = Some x \<longrightarrow> iterator ev n = Raise x \<or> n < maxIterations"
              "\<forall>a\<in>set new. \<exists>sd c c'. rs \<le> sd \<and> sd \<le> re \<and>
                  createEventRecord c ev (Some sd) src = (Inr (Some a), c')"
              by (auto simp: a)
            show ?thesis
            proof (intro exI [of _ "a # new"] conjI)
              show "out = acc @ a # new" using new(1) by simp
              show "count \<le> n" using new(2) by simp
              show "count \<le> maxIterations \<longrightarrow> n \<le> maxIterations" using new(3) go by simp
              show "length (a # new) \<le> n - count" using new(2,4) by simp
              show "\<forall>x. e = Some x \<longrightarrow> iterator ev n = Raise x \<or> n < maxIterations" using new(5) .
              show "\<forall>a\<in>set (a # new). \<exists>sd c c'. rs \<le> sd \<and> sd \<le> re \<and>
                  createEventRecord c ev (Some sd) src = (Inr (Some a), c')"
                using em new(6) by simp
            qed
          qed
        qed
      qed
    qed
  next
    case Exhausted
    with "1.prems" show ?thesis by (subst (asm) expand_loop.simps) auto
  next
    case (Raise x)
    with "1.prems" show ?thesis by (subst (asm) expand_loop.simps) auto
  qed
qed


lemma expand_loop_emit:
  assumes "iterator ev count = Candidate t" "count < maxIterations"
    "rs \<le> toJSDate t" "toJSDate t \<le> re"
    "createEventRecord clk ev (Some (toJSDate t)) src = (Inr (Some a), clk')"
  shows "expand_loop clk ev rs re src count acc = expand_loop clk' ev rs re src (Suc count) (acc @ [a])"
  using assms by (subst expand_loop.simps) (simp add: Let_def)

lemma expand_loop_break:
  assumes "iterator ev count = Candidate t" "re < toJSDate t"
  shows "expand_loop clk ev rs re src count acc = (None, acc, count, clk)"
  using assms by (subst expand_loop.simps) (simp add: Let_def)

lemma expand_loop_raise:
  assumes "iterator ev count = Raise x"
  shows "expand_loop clk ev rs re src count acc = (Some x, acc, count, clk)"
  using assms by (subst expand_loop.simps) simp

lemma weekly_event_fields:
  "uid weekly_event = ''standup''" "summary weekly_event = ''Standup''"
  "description weekly_event = []" "ical_location weekly_event = ''Room 1''"
  "startDate weekly_event = Some \<lparr> toJSDate = 0, isDate = False \<rparr>"
  "endDate weekly_event = Some \<lparr> toJSDate = 1800000, isDate = False \<rparr>"
  "duration weekly_event = None" "organizer weekly_event = None"
  "isRecurring weekly_event = True"
  "iterator weekly_event k = Candidate \<lparr> toJSDate = int k * 604800000, isDate = False \<rparr>"
  by (simp_all add: weekly_event_def)

lemma iso_format_week1: "iso_format 604800000 = ''1970-01-08T00:00:00.000Z''"
  by (simp add: date_eval)

lemma iso_format_week1_end: "iso_format 606600000 = ''1970-01-08T00:30:00.000Z''"
  by (simp add: date_eval)

lemma iso_format_day1: "iso_format 86400000 = ''1970-01-02T00:00:00.000Z''"
  by (simp add: date_eval)

lemma create_weekly_0:
  "createEventRecord clk weekly_event (Some 0) Ics =
     (Inr (Some (weekly_record ''standup_19700101T000000'' ''1970-01-01T00:00:00.000Z''
                  ''1970-01-01T00:30:00.000Z'' (iso_format (clk 0)))), clock_tick clk)"
  by (simp add: createEventRecord_def weekly_event_fields weekly_record_def toISOString_def
      valid_date_def iso_format_0 iso_format_1800000 dateStr_def)

lemma create_weekly_1:
  "createEventRecord clk weekly_event (Some 604800000) Ics =
     (Inr (Some (weekly_record ''standup_19700108T000000'' ''1970-01-08T00:00:00.000Z''
                  ''1970-01-08T00:30:00.000Z'' (iso_format (clk 0)))), clock_tick clk)"
  by (simp add: createEventRecord_def weekly_event_fields weekly_record_def toISOString_def
      valid_date_def iso_format_week1 iso_format_week1_end dateStr_def)

lemma expand_weekly:
  "expandEvent clk weekly_event 0 604800000 Ics =
     (Inr [weekly_record ''standup_19700101T000000'' ''1970-01-01T00:00:00.000Z''
             ''1970-01-01T00:30:00.000Z'' (iso_format (clk 0)),
           weekly_record ''standup_19700108T000000'' ''1970-01-08T00:00:00.000Z''
             ''1970-01-08T00:30:00.000Z'' (iso_format (clk 1))],
      clock_tick (clock_tick clk))"
proof -
  have ns: "\<not> isStatusWord ''Standup''" by code_simp
  have s0: "expand_loop clk weekly_event 0 604800000 Ics 0 [] =
      expand_loop (clock_tick clk) weekly_event 0 604800000 Ics (Suc 0)
        ([] @ [weekly_record ''standup_19700101T000000'' ''1970-01-01T00:00:00.000Z''
             ''1970-01-01T00:30:00.000Z'' (iso_format (clk 0))])"
    by (rule expand_loop_emit [where t = "\<lparr> toJSDate = 0, isDate = False \<rparr>"])
       (simp_all add: weekly_event_fields maxIterations_def create_weekly_0)
  have s1: "expand_loop (clock_tick clk) weekly_event 0 604800000 Ics (Suc 0) acc =
      expand_loop (clock_tick (clock_tick clk)) weekly_event 0 604800000 Ics (Suc (Suc 0))
        (acc @ [weekly_record ''standup_19700108T000000'' ''1970-01-08T00:00:00.000Z''
             ''1970-01-08T00:30:00.000Z'' (iso_format (clk 1))])" for acc
    by (rule expand_loop_emit [where t = "\<lparr> toJSDate = 604800000, isDate = False \<rparr>"])
       (simp_all add: weekly_event_fields maxIterations_def create_weekly_1 clock_tick_def)
  have s2: "expand_loop c weekly_event 0 604800000 Ics (Suc (Suc 0)) acc = (None, acc, Suc (Suc 0), c)" for acc c
    by (rule expand_loop_break [where t = "\<lparr> toJSDate = 1209600000, isDate = False \<rparr>"])
       (simp_all add: weekly_event_fields)
  show ?thesis
    by (simp add: expandEvent_def weekly_event_fields ns s0 s1 s2)
qed

lemma broken_event_fields:
  "uid broken_event = ''broken''" "summary broken_event = ''Review''"
  "description broken_event = []" "ical_location broken_event = []"
  "startDate broken_event = Some \<lparr> toJSDate = 0, isDate = False \<rparr>"
  "endDate broken_event = Some \<lparr> toJSDate = 1800000, isDate = False \<rparr>"
  "duration broken_event = None" "organizer broken_event = None"
  "isRecurring broken_event = True"
  "iterator broken_event k = Raise (ErrorObj ''invalid rule'')"
  by (simp_all add: broken_event_def)

lemma create_broken:
  "createEventRecord zero_clock broken_event (Some 0) Ics =
     (Inr (Some broken_record), clock_tick zero_clock)"
  by (simp add: createEventRecord_def broken_event_fields broken_record_def toISOString_def
      valid_date_def iso_format_0 iso_format_1800000 dateStr_def zero_clock_def)

lemma expand_broken:
  "expandEvent zero_clock broken_event 1000 2000 Ics = (Inr [broken_record], clock_tick zero_clock)"
proof -
  have ns: "\<not> isStatusWord ''Review''" by code_simp
  have l: "expand_loop zero_clock broken_event 1000 2000 Ics 0 [] =
             (Some (ErrorObj ''invalid rule''), [], 0, zero_clock)"
    by (rule expand_loop_raise) (simp add: broken_event_fields)
  show ?thesis
    by (simp add: expandEvent_def broken_event_fields ns l create_broken)
qed

lemma expandEvent_length:
  assumes "expandEvent clk ev rs re src = (Inr out, c)"
  shows "length out \<le> 501" "(\<forall>k x. iterator ev k \<noteq> Raise x) \<longrightarrow> length out \<le> 500"
proof -
  obtain e lo n c1 where l: "expand_loop clk ev rs re src 0 [] = (e, lo, n, c1)"
    by (cases "expand_loop clk ev rs re src 0 []") auto
  from expand_loop_results [OF l] have n: "n \<le> maxIterations" and len: "length lo \<le> n"
    and thr: "\<forall>x. e = Some x \<longrightarrow> iterator ev n = Raise x \<or> n < maxIterations"
    by auto
  have out: "out = [] \<or> out = lo \<or> (\<exists>a. out = lo @ [a] \<and> e \<noteq> None) \<or> length out \<le> 1"
    using assms l
    by (auto simp: expandEvent_def split: if_splits option.splits sum.splits prod.splits)
  then show "length out \<le> 501"
    using n len by (auto simp: maxIterations_def)
  show "(\<forall>k x. iterator ev k \<noteq> Raise x) \<longrightarrow> length out \<le> 500"
  proof
    assume nr: "\<forall>k x. iterator ev k \<noteq> Raise x"
    with thr have "e \<noteq> None \<longrightarrow> n < maxIterations" by auto
    with out n len show "length out \<le> 500"
      by (auto simp: maxIterations_def)
  qed
qed

subsection \<open>C3: bounded expansion\<close>

text \<open>
  C3. For every event and every window the loop of \<open>expandEvent\<close> returns (it is a
  total function, its measure \<open>500 - count\<close>), having taken at most 500 candidates
  and emitted at most as many occurrences as candidates taken. So an expansion
  whose rule iterator never throws, a rule without end among them, returns at most
  500 occurrences. When the iterator throws, the recovery path appends one
  occurrence to what the loop emitted, so 501 bounds every expansion.
\<close>

theorem bounded_expansion:
  "(\<exists>e out n c. expand_loop clk ev rangeStart rangeEnd src 0 [] = (e, out, n, c) \<and>
        n \<le> 500 \<and> length out \<le> n) \<and>
   (expandEvent clk ev rangeStart rangeEnd src = (Inr occurrences, clk') \<longrightarrow>
        ((\<forall>k x. iterator ev k \<noteq> Raise x) \<longrightarrow> length occurrences \<le> 500) \<and>
        length occurrences \<le> 501)"
proof (intro conjI impI)
  obtain e lo n c1 where l: "expand_loop clk ev rangeStart rangeEnd src 0 [] = (e, lo, n, c1)"
    by (cases "expand_loop clk ev rangeStart rangeEnd src 0 []") auto
  from expand_loop_results [OF l] have "n \<le> 500" "length lo \<le> n"
    by (auto simp: maxIterations_def)
  with l show "\<exists>e out n c. expand_loop clk ev rangeStart rangeEnd src 0 [] = (e, out, n, c) \<and>
        n \<le> 500 \<and> length out \<le> n"
    by blast
next
  assume a: "expandEvent clk ev rangeStart rangeEnd src = (Inr occurrences, clk')"
  show "length occurrences \<le> 501" using expandEvent_length(1) [OF a] .
  assume "\<forall>k x. iterator ev k \<noteq> Raise x"
  then show "length occurrences \<le> 500" using expandEvent_length(2) [OF a] by blast
qed

theorem bounded_expansion_witness:
  "(\<forall>k x. iterator weekly_event k \<noteq> Raise x) \<and>
   expandEvent zero_clock weekly_event 0 604800000 Ics =
     (Inr [weekly_record ''standup_19700101T000000'' ''1970-01-01T00:00:00.000Z''
             ''1970-01-01T00:30:00.000Z'' ''1970-01-01T00:00:00.000Z'',
           weekly_record ''standup_19700108T000000'' ''1970-01-08T00:00:00.000Z''
             ''1970-01-08T00:30:00.000Z'' ''1970-01-01T00:00:00.000Z''],
      clock_tick (clock_tick zero_clock)) \<and>
   (\<exists>e out n c. expand_loop zero_clock weekly_event 0 604800000 Ics 0 [] = (e, out, n, c) \<and>
        n \<le> 500 \<and> length out \<le> n) \<and>
   length [weekly_record ''standup_19700101T000000'' ''1970-01-01T00:00:00.000Z''
             ''1970-01-01T00:30:00.000Z'' ''1970-01-01T00:00:00.000Z'',
           weekly_record ''standup_19700108T000000'' ''1970-01-08T00:00:00.000Z''
             ''1970-01-08T00:30:00.000Z'' ''1970-01-01T00:00:00.000Z''] \<le> 500"
proof -
  have nr: "\<forall>k x. iterator weekly_event k \<noteq> Raise x"
    by (simp add: weekly_event_fields)
  have e: "expandEvent zero_clock weekly_event 0 604800000 Ics =
     (Inr [weekly_record ''standup_19700101T000000'' ''1970-01-01T00:00:00.000Z''
             ''1970-01-01T00:30:00.000Z'' ''1970-01-01T00:00:00.000Z'',
           weekly_record ''standup_19700108T000000'' ''1970-01-08T00:00:00.000Z''
             ''1970-01-08T00:30:00.000Z'' ''1970-01-01T00:00:00.000Z''],
      clock_tick (clock_tick zero_clock))"
    by (simp add: expand_weekly zero_clock_def iso_format_0)
  from bounded_expansion [of zero_clock weekly_event 0 604800000 Ics _ "clock_tick (clock_tick zero_clock)"]
    nr e show ?thesis by blast
qed

subsection \<open>C4: window monotonicity\<close>

text \<open>
  C4 fails on the recovery path. The series \<open>broken_event\<close> starts at the epoch and
  its iterator throws; expanded against the window from 1000 to 2000 milliseconds,
  the \<open>catch\<close> block emits an occurrence at the nominal start, which is before the
  window. The loop and the single-event branch test the window; the \<open>catch\<close> block
  does not.
\<close>

theorem fallback_outside_window:
  "isRecurring broken_event \<and>
   expandEvent zero_clock broken_event 1000 2000 Ics = (Inr [broken_record], clock_tick zero_clock) \<and>
   start_time broken_record = iso_format 0 \<and> \<not> (1000 \<le> (0::int) \<and> (0::int) \<le> 2000)"
  by (simp add: expand_broken broken_event_fields broken_record_def iso_format_0)

subsection \<open>C1: idempotent identity\<close>

lemma createEventRecord_clock:
  assumes "uid ev \<noteq> []"
  shows "map_sum id (map_option strip_updated) (fst (createEventRecord c1 ev sd src)) =
         map_sum id (map_option strip_updated) (fst (createEventRecord c2 ev sd src))"
  using assms
  by (cases sd)
     (auto simp: createEventRecord_def strip_updated_def Let_def split: sum.splits)

lemma some_eq_map_option: "(Some y = map_option f x) = (\<exists>z. x = Some z \<and> y = f z)"
  by (cases x) auto

lemma expand_loop_clock:
  "uid ev \<noteq> [] \<Longrightarrow> map strip_updated acc1 = map strip_updated acc2 \<Longrightarrow>
     fst (expand_loop c1 ev rs re src count acc1) = fst (expand_loop c2 ev rs re src count acc2) \<and>
     map strip_updated (fst (snd (expand_loop c1 ev rs re src count acc1))) =
     map strip_updated (fst (snd (expand_loop c2 ev rs re src count acc2)))"
proof (induction c1 ev rs re src count acc1 arbitrary: c2 acc2 rule: expand_loop.induct)
  case (1 c1 ev rs re src count acc1)
  note u = "1.prems"(1) and acc = "1.prems"(2)
  show ?case
  proof (cases "iterator ev count")
    case Exhausted
    then show ?thesis using acc
      by (simp add: expand_loop.simps [of _ ev rs re src count])
  next
    case (Raise x)
    then show ?thesis using acc
      by (simp add: expand_loop.simps [of _ ev rs re src count])
  next
    case (Candidate nx)
    show ?thesis
    proof (cases "count < maxIterations \<and> \<not> toJSDate nx > re")
      case False
      then show ?thesis using acc Candidate
        by (auto simp: expand_loop.simps [of _ ev rs re src count] Let_def)
    next
      case go: True
      show ?thesis
      proof (cases "toJSDate nx \<ge> rs")
        case False
        have "expand_loop c ev rs re src count a = expand_loop c ev rs re src (Suc count) a" for c a
          using Candidate go False by (simp add: expand_loop.simps [of _ ev rs re src count] Let_def)
        moreover from "1.IH"(2) [OF Candidate _ refl _ _ u acc] go False
        have "fst (expand_loop c1 ev rs re src (Suc count) acc1) =
              fst (expand_loop c2 ev rs re src (Suc count) acc2) \<and>
              map strip_updated (fst (snd (expand_loop c1 ev rs re src (Suc count) acc1))) =
              map strip_updated (fst (snd (expand_loop c2 ev rs re src (Suc count) acc2)))"
          by simp
        ultimately show ?thesis by simp
      next
        case inwin: True
        obtain r1 d1 where p1: "createEventRecord c1 ev (Some (toJSDate nx)) src = (r1, d1)"
          by (cases "createEventRecord c1 ev (Some (toJSDate nx)) src") auto
        obtain r2 d2 where p2: "createEventRecord c2 ev (Some (toJSDate nx)) src = (r2, d2)"
          by (cases "createEventRecord c2 ev (Some (toJSDate nx)) src") auto
        have rel: "map_sum id (map_option strip_updated) r1 = map_sum id (map_option strip_updated) r2"
          using createEventRecord_clock [OF u, of c1 "Some (toJSDate nx)" src c2] p1 p2 by simp
        show ?thesis
        proof (cases r1)
          case (Inl x)
          with rel have "r2 = Inl x" by (cases r2) auto
          with Inl p1 p2 Candidate go inwin acc show ?thesis
            by (simp add: expand_loop.simps [of _ ev rs re src count] Let_def)
        next
          case (Inr o1)
          with rel obtain o2 where r2: "r2 = Inr o2"
            and o: "map_option strip_updated o1 = map_option strip_updated o2"
            by (cases r2) auto
          let ?a1 = "case o1 of None \<Rightarrow> acc1 | Some a \<Rightarrow> acc1 @ [a]"
          let ?a2 = "case o2 of None \<Rightarrow> acc2 | Some a \<Rightarrow> acc2 @ [a]"
          have acc': "map strip_updated ?a1 = map strip_updated ?a2"
            using o acc by (cases o1; cases o2) auto
          have e1: "expand_loop c1 ev rs re src count acc1 = expand_loop d1 ev rs re src (Suc count) ?a1"
            using Candidate go inwin p1 Inr
            by (simp add: expand_loop.simps [of _ ev rs re src count] Let_def)
          have e2: "expand_loop c2 ev rs re src count acc2 = expand_loop d2 ev rs re src (Suc count) ?a2"
            using Candidate go inwin p2 r2
            by (simp add: expand_loop.simps [of _ ev rs re src count] Let_def)
          from "1.IH"(1) [OF Candidate _ refl _ _ p1 [symmetric] Inr u acc'] go inwin
          show ?thesis unfolding e1 e2 by simp
        qed
      qed
    qed
  qed
qed

lemma expandEvent_clock:
  assumes u: "uid ev \<noteq> []"
  shows "map_sum id (map strip_updated) (fst (expandEvent c1 ev rs re src)) =
         map_sum id (map strip_updated) (fst (expandEvent c2 ev rs re src))"
proof (cases "isRecurring ev")
  case False
  show ?thesis
  proof (cases "startDate ev")
    case None
    then show ?thesis using False by (simp add: expandEvent_def)
  next
    case (Some t)
    obtain r1 d1 where p1: "createEventRecord c1 ev (Some (toJSDate t)) src = (r1, d1)"
      by (cases "createEventRecord c1 ev (Some (toJSDate t)) src") auto
    obtain r2 d2 where p2: "createEventRecord c2 ev (Some (toJSDate t)) src = (r2, d2)"
      by (cases "createEventRecord c2 ev (Some (toJSDate t)) src") auto
    have rel: "map_sum id (map_option strip_updated) r1 = map_sum id (map_option strip_updated) r2"
      using createEventRecord_clock [OF u, of c1 "Some (toJSDate t)" src c2] p1 p2 by simp
    then have "map_sum id (map strip_updated)
          (case r1 of Inl e \<Rightarrow> Inl e | Inr r \<Rightarrow> Inr (case r of Some a \<Rightarrow> [a] | None \<Rightarrow> [])) =
        map_sum id (map strip_updated)
          (case r2 of Inl e \<Rightarrow> Inl e | Inr r \<Rightarrow> Inr (case r of Some a \<Rightarrow> [a] | None \<Rightarrow> []))"
      by (cases r1; cases r2) (auto simp: some_eq_map_option split: option.splits)
    then show ?thesis using False Some p1 p2
      by (auto simp: expandEvent_def split: sum.splits option.splits)
  qed
next
  case True
  obtain e1 o1 n1 d1 where l1: "expand_loop c1 ev rs re src 0 [] = (e1, o1, n1, d1)"
    by (cases "expand_loop c1 ev rs re src 0 []") auto
  obtain e2 o2 n2 d2 where l2: "expand_loop c2 ev rs re src 0 [] = (e2, o2, n2, d2)"
    by (cases "expand_loop c2 ev rs re src 0 []") auto
  from expand_loop_clock [OF u, of "[]" "[]" c1 rs re src 0 c2] l1 l2
  have ee: "e1 = e2" and oo: "map strip_updated o1 = map strip_updated o2" by simp_all
  obtain r1 f1 where p1: "createEventRecord d1 ev (map_option toJSDate (startDate ev)) src = (r1, f1)"
    by (cases "createEventRecord d1 ev (map_option toJSDate (startDate ev)) src") auto
  obtain r2 f2 where p2: "createEventRecord d2 ev (map_option toJSDate (startDate ev)) src = (r2, f2)"
    by (cases "createEventRecord d2 ev (map_option toJSDate (startDate ev)) src") auto
  have rel: "map_sum id (map_option strip_updated) r1 = map_sum id (map_option strip_updated) r2"
    using createEventRecord_clock [OF u, of d1 "map_option toJSDate (startDate ev)" src d2] p1 p2 by simp
  have fb: "map_sum id (map strip_updated)
          (case r1 of Inl e \<Rightarrow> Inl e | Inr r \<Rightarrow> Inr (case r of Some a \<Rightarrow> o1 @ [a] | None \<Rightarrow> o1)) =
        map_sum id (map strip_updated)
          (case r2 of Inl e \<Rightarrow> Inl e | Inr r \<Rightarrow> Inr (case r of Some a \<Rightarrow> o2 @ [a] | None \<Rightarrow> o2))"
    using rel oo by (cases r1; cases r2) (auto simp: some_eq_map_option split: option.splits)
  show ?thesis
  proof (cases e1)
    case None
    with ee l1 l2 oo True show ?thesis
      by (simp add: expandEvent_def)
  next
    case (Some x)
    with ee l1 l2 True p1 p2 fb show ?thesis
      by (auto simp: expandEvent_def split: sum.splits option.splits)
  qed
qed

text \<open>
  C1. For an event that carries a UID, two expansions against the same window, run
  under any two clocks, throw the same exception or return lists that agree record
  by record in every field but \<open>updated_at\<close>. The id of a record is the UID, an
  underscore and the compact timestamp of the start: two records made at the same
  start for events with the same UID have the same id, whatever the clock, the source
  or the other fields of the event.
\<close>

theorem idempotent_identity:
  assumes "uid ev \<noteq> []"
  shows "map_sum id (map strip_updated) (fst (expandEvent c1 ev rangeStart rangeEnd src)) =
         map_sum id (map strip_updated) (fst (expandEvent c2 ev rangeStart rangeEnd src)) \<and>
         (createEventRecord c1 ev (Some sd) src = (Inr (Some a), c1') \<and>
          createEventRecord c2 ev' (Some sd) src' = (Inr (Some b), c2') \<and> uid ev' = uid ev \<longrightarrow>
            id' a = uid ev @ ''_'' @ dateStr (iso_format sd) \<and> id' b = id' a)"
proof (intro conjI impI)
  show "map_sum id (map strip_updated) (fst (expandEvent c1 ev rangeStart rangeEnd src)) =
        map_sum id (map strip_updated) (fst (expandEvent c2 ev rangeStart rangeEnd src))"
    using expandEvent_clock [OF assms] .
next
  assume h: "createEventRecord c1 ev (Some sd) src = (Inr (Some a), c1') \<and>
    createEventRecord c2 ev' (Some sd) src' = (Inr (Some b), c2') \<and> uid ev' = uid ev"
  then have u': "uid ev' \<noteq> []" using assms by simp
  show ida: "id' a = uid ev @ ''_'' @ dateStr (iso_format sd)"
    using createEventRecord_SomeD(2) [OF _ assms] h by blast
  have "id' b = uid ev' @ ''_'' @ dateStr (iso_format sd)"
    using createEventRecord_SomeD(2) [OF _ u'] h by blast
  with ida h show "id' b = id' a" by simp
qed

theorem idempotent_identity_witness:
  "uid weekly_event \<noteq> [] \<and>
   fst (expandEvent zero_clock weekly_event 0 604800000 Ics) =
     Inr [weekly_record ''standup_19700101T000000'' ''1970-01-01T00:00:00.000Z''
            ''1970-01-01T00:30:00.000Z'' ''1970-01-01T00:00:00.000Z'',
          weekly_record ''standup_19700108T000000'' ''1970-01-08T00:00:00.000Z''
            ''1970-01-08T00:30:00.000Z'' ''1970-01-01T00:00:00.000Z''] \<and>
   fst (expandEvent late_clock weekly_event 0 604800000 Ics) =
     Inr [weekly_record ''standup_19700101T000000'' ''1970-01-01T00:00:00.000Z''
            ''1970-01-01T00:30:00.000Z'' ''1970-01-02T00:00:00.000Z'',
          weekly_record ''standup_19700108T000000'' ''1970-01-08T00:00:00.000Z''
            ''1970-01-08T00:30:00.000Z'' ''1970-01-02T00:00:00.000Z''] \<and>
   map_sum id (map strip_updated) (fst (expandEvent zero_clock weekly_event 0 604800000 Ics)) =
   map_sum id (map strip_updated) (fst (expandEvent late_clock weekly_event 0 604800000 Ics)) \<and>
   id' (weekly_record ''standup_19700108T000000'' ''1970-01-08T00:00:00.000Z''
          ''1970-01-08T00:30:00.000Z'' ''1970-01-01T00:00:00.000Z'') =
     uid weekly_event @ ''_'' @ dateStr (iso_format 604800000) \<and>
   id' (weekly_record ''standup_19700108T000000'' ''1970-01-08T00:00:00.000Z''
          ''1970-01-08T00:30:00.000Z'' ''1970-01-02T00:00:00.000Z'') =
   id' (weekly_record ''standup_19700108T000000'' ''1970-01-08T00:00:00.000Z''
          ''1970-01-08T00:30:00.000Z'' ''1970-01-01T00:00:00.000Z'')"
proof -
  have u: "uid weekly_event \<noteq> []" by (simp add: weekly_event_fields)
  note r = idempotent_identity [OF u, of zero_clock 0 604800000 Ics late_clock 604800000
      "weekly_record ''standup_19700108T000000'' ''1970-01-08T00:00:00.000Z''
          ''1970-01-08T00:30:00.000Z'' ''1970-01-01T00:00:00.000Z''"
      "clock_tick zero_clock" weekly_event Ics
      "weekly_record ''standup_19700108T000000'' ''1970-01-08T00:00:00.000Z''
          ''1970-01-08T00:30:00.000Z'' ''1970-01-02T00:00:00.000Z''"
      "clock_tick late_clock"]
  have c1: "createEventRecord zero_clock weekly_event (Some 604800000) Ics =
      (Inr (Some (weekly_record ''standup_19700108T000000'' ''1970-01-08T00:00:00.000Z''
          ''1970-01-08T00:30:00.000Z'' ''1970-01-01T00:00:00.000Z'')), clock_tick zero_clock)"
    by (simp add: create_weekly_1 zero_clock_def iso_format_0)
  have c2: "createEventRecord late_clock weekly_event (Some 604800000) Ics =
      (Inr (Some (weekly_record ''standup_19700108T000000'' ''1970-01-08T00:00:00.000Z''
          ''1970-01-08T00:30:00.000Z'' ''1970-01-02T00:00:00.000Z'')), clock_tick late_clock)"
    by (simp add: create_weekly_1 late_clock_def iso_format_day1)
  have e1: "fst (expandEvent zero_clock weekly_event 0 604800000 Ics) =
     Inr [weekly_record ''standup_19700101T000000'' ''1970-01-01T00:00:00.000Z''
            ''1970-01-01T00:30:00.000Z'' ''1970-01-01T00:00:00.000Z'',
          weekly_record ''standup_19700108T000000'' ''1970-01-08T00:00:00.000Z''
            ''1970-01-08T00:30:00.000Z'' ''1970-01-01T00:00:00.000Z'']"
    by (simp add: expand_weekly zero_clock_def iso_format_0)
  have e2: "fst (expandEvent late_clock weekly_event 0 604800000 Ics) =
     Inr [weekly_record ''standup_19700101T000000'' ''1970-01-01T00:00:00.000Z''
            ''1970-01-01T00:30:00.000Z'' ''1970-01-02T00:00:00.000Z'',
          weekly_record ''standup_19700108T000000'' ''1970-01-08T00:00:00.000Z''
            ''1970-01-08T00:30:00.000Z'' ''1970-01-02T00:00:00.000Z'']"
    by (simp add: expand_weekly late_clock_def iso_format_day1)
  from r c1 c2 u e1 e2 show ?thesis by blast
qed

subsection \<open>The events route\<close>

lemma not_ignored_iff:
  "not_ignored ignoredBaseSet ignoredEventSet apt \<longleftrightarrow>
     id' apt \<notin> ignoredEventSet \<and> getBaseIdFromEventId (id' apt) \<notin> ignoredBaseSet"
  by (simp add: not_ignored_def Let_def)

lemma the_filter_map:
  "set (map the (filter (\<lambda>e. e \<noteq> None) (map f xs))) = {e. \<exists>x\<in>set xs. f x = Some e}"
  by (induction xs) auto

lemma GET_events_set:
  "e \<in> set (GET_events revealed ignB ignE rows) \<longleftrightarrow>
     (\<exists>apt\<in>set rows. id' apt \<notin> ignE \<and> getBaseIdFromEventId (id' apt) \<notin> ignB \<and>
        convert_and_mask revealed apt = Some e)"
  unfolding GET_events_def the_filter_map
  by (auto simp: not_ignored_iff)

lemma convert_and_mask_SomeD:
  assumes "convert_and_mask revealed apt = Some e"
  shows "ce_id e = id' apt" "ce_start_time e = start_time apt" "ce_end_time e = end_time apt"
    "ce_source e = source apt" "ce_is_all_day e = (if is_all_day apt then 1 else 0)"
    "id' apt \<noteq> []" "start_time apt \<noteq> []" "end_time apt \<noteq> []"
    "source apt \<in> {''graph_api'', ''ics'', ''apple_calendar''}"
  using assms
  by (auto simp: convert_and_mask_def toCalendarEvent_def split: if_splits option.splits)

lemma toCalendarEvent_None_iff:
  "toCalendarEvent (Some apt) = None \<longleftrightarrow>
     id' apt = [] \<or> start_time apt = [] \<or> end_time apt = [] \<or>
     source apt \<notin> {''graph_api'', ''ics'', ''apple_calendar''}"
  by (auto simp: toCalendarEvent_def)

lemma convert_None_iff:
  "convert_and_mask revealed apt = None \<longleftrightarrow> toCalendarEvent (Some apt) = None"
  by (auto simp: convert_and_mask_def split: option.splits)

lemma GET_events_drop_invalid:
  assumes "toCalendarEvent (Some apt) = None"
  shows "GET_events revealed ignB ignE (xs @ apt # ys) = GET_events revealed ignB ignE (xs @ ys)"
  using convert_None_iff [THEN iffD2, OF assms, of revealed] by (simp add: GET_events_def)

lemma GET_EventsJsonD:
  assumes "fst (GET request db) = EventsJson evs"
  shows "\<exists>apts bases ids. appointments_in_range db = Inr apts \<and> ignored_base_ids db = Inr bases \<and>
           ignored_event_ids db = Inr ids \<and>
           evs = GET_events (lifesynced_personal_reveal request = Some ''revealed'')
                   (set (rows_or_empty bases)) (set (rows_or_empty ids)) (rows_or_empty apts)"
  using assms
  by (auto simp: GET_def Let_def split: option.splits sum.splits if_splits)

lemma GET_store: "snd (GET request db) = db"
  by (auto simp: GET_def Let_def split: option.splits sum.splits if_splits)

lemma GET_drop_invalid:
  assumes "toCalendarEvent (Some apt) = None"
  shows "fst (GET request (db\<lparr> appointments_in_range := Inr \<lparr> data = Some (xs @ apt # ys), error = None \<rparr> \<rparr>)) =
         fst (GET request (db\<lparr> appointments_in_range := Inr \<lparr> data = Some (xs @ ys), error = None \<rparr> \<rparr>))"
  using GET_events_drop_invalid [OF assms]
  by (auto simp: GET_def Let_def rows_or_empty_def split: option.splits sum.splits)

lemma parseInt_30: "parseInt ''30'' = Some 30"
  by (simp add: parseInt_def is_space_def is_digit_def digit_value_def)
lemma ts_concrete:
  "isTimestamp ''20250101T100000''" "CHR ''_'' \<notin> set ''20250101T100000''"
  "isTimestamp ''20250101T103000''" "CHR ''_'' \<notin> set ''20250101T103000''"
  "isTimestamp ''20250101T110000''" "CHR ''_'' \<notin> set ''20250101T110000''"
  "isTimestamp ''20250101T000000''" "CHR ''_'' \<notin> set ''20250101T000000''"
  by (simp_all add: isTimestamp_def is_digit_def)
lemma base_ids_concrete:
  "getBaseIdFromEventId ''yoga_20250101T100000'' = ''yoga''"
  "getBaseIdFromEventId ''review_20250101T103000'' = ''review''"
  "getBaseIdFromEventId ''lunch_20250101T110000'' = ''lunch''"
  "getBaseIdFromEventId ''free_20250101T000000'' = ''free''"
  using getBaseId_strip [OF ts_concrete(1,2), of "''yoga''"]
    getBaseId_strip [OF ts_concrete(3,4), of "''review''"]
    getBaseId_strip [OF ts_concrete(5,6), of "''lunch''"]
    getBaseId_strip [OF ts_concrete(7,8), of "''free''"]
  by simp_all
lemma base_id_plain: "getBaseIdFromEventId ''imported1'' = ''imported1''"
  by (simp add: getBaseIdFromEventId_def)

lemma convert_concrete:
  "convert_and_mask r review_row = Some review_event"
  "convert_and_mask r lunch_row = Some lunch_event"
  "convert_and_mask True yoga_row = Some yoga_event"
  "convert_and_mask True free_row = Some free_event"
  "convert_and_mask False free_row = Some masked_free_event"
  "convert_and_mask r bad_row = None"
  by (simp_all add: convert_and_mask_def toCalendarEvent_def row_def cal_def review_row_def
      review_event_def lunch_row_def lunch_event_def yoga_row_def yoga_event_def free_row_def
      free_event_def masked_free_event_def bad_row_def)

lemma row_ids:
  "id' review_row = ''review_20250101T103000''" "id' lunch_row = ''lunch_20250101T110000''"
  "id' yoga_row = ''yoga_20250101T100000''" "id' free_row = ''free_20250101T000000''"
  "id' bad_row = ''imported1''"
  by (simp_all add: row_def review_row_def lunch_row_def yoga_row_def free_row_def bad_row_def)

lemma GET_store_with:
  "fst (GET request_hidden (store_with rows bases ids)) =
     EventsJson (GET_events False (set bases) (set ids) rows)"
  "fst (GET request_revealed (store_with rows bases ids)) =
     EventsJson (GET_events True (set bases) (set ids) rows)"
  by (simp_all add: GET_def request_hidden_def request_revealed_def store_with_def parseInt_30
      rows_or_empty_def)

lemma GET_events_ignore_concrete:
  "GET_events False (set [''yoga'']) (set [''lunch_20250101T110000''])
     [yoga_row, review_row, lunch_row] = [review_event]"
  by (simp add: GET_events_def not_ignored_def row_ids base_ids_concrete base_id_plain convert_concrete)

lemma GET_events_bad_concrete:
  "GET_events False (set []) (set []) [bad_row, review_row] = [review_event]"
  by (simp add: GET_events_def not_ignored_def row_ids base_ids_concrete base_id_plain convert_concrete)

lemma GET_events_free_concrete:
  "GET_events True (set []) (set []) [free_row, review_row] = [free_event, review_event]"
  "GET_events False (set []) (set []) [free_row, review_row] = [masked_free_event, review_event]"
  by (simp_all add: GET_events_def not_ignored_def row_ids base_ids_concrete base_id_plain convert_concrete)

subsection \<open>C7: ignore precedence\<close>

text \<open>
  C7. The filter of the read path keeps a fetched row exactly when its id is not in
  the set of ignored occurrence ids and the base id recovered from its id is not in
  the set of ignored base ids; either membership alone excludes it. So an event is in
  the answer of \<open>GET\<close> exactly when it is the conversion (masked or not) of a fetched
  row that is in neither set. The handler only reads: the store after the request is
  the store before it.
\<close>

theorem ignore_precedence:
  "(not_ignored ignoredBaseSet ignoredEventSet apt \<longleftrightarrow>
      id' apt \<notin> ignoredEventSet \<and> getBaseIdFromEventId (id' apt) \<notin> ignoredBaseSet) \<and>
   (fst (GET request db) = EventsJson evs \<and> appointments_in_range db = Inr apts \<and>
    ignored_base_ids db = Inr bases \<and> ignored_event_ids db = Inr ids \<longrightarrow>
      (e \<in> set evs \<longleftrightarrow>
         (\<exists>r\<in>set (rows_or_empty apts).
            id' r \<notin> set (rows_or_empty ids) \<and>
            getBaseIdFromEventId (id' r) \<notin> set (rows_or_empty bases) \<and>
            convert_and_mask (lifesynced_personal_reveal request = Some ''revealed'') r = Some e))) \<and>
   snd (GET request db) = db"
proof (intro conjI impI)
  show "not_ignored ignoredBaseSet ignoredEventSet apt \<longleftrightarrow>
      id' apt \<notin> ignoredEventSet \<and> getBaseIdFromEventId (id' apt) \<notin> ignoredBaseSet"
    by (rule not_ignored_iff)
  show "snd (GET request db) = db" by (rule GET_store)
next
  assume h: "fst (GET request db) = EventsJson evs \<and> appointments_in_range db = Inr apts \<and>
    ignored_base_ids db = Inr bases \<and> ignored_event_ids db = Inr ids"
  with GET_EventsJsonD [of request db evs]
  have "evs = GET_events (lifesynced_personal_reveal request = Some ''revealed'')
                (set (rows_or_empty bases)) (set (rows_or_empty ids)) (rows_or_empty apts)"
    by auto
  then show "e \<in> set evs \<longleftrightarrow>
         (\<exists>r\<in>set (rows_or_empty apts).
            id' r \<notin> set (rows_or_empty ids) \<and>
            getBaseIdFromEventId (id' r) \<notin> set (rows_or_empty bases) \<and>
            convert_and_mask (lifesynced_personal_reveal request = Some ''revealed'') r = Some e)"
    by (simp only: GET_events_set)
qed

theorem ignore_precedence_witness:
  "fst (GET request_hidden (store_with [yoga_row, review_row, lunch_row] [''yoga'']
          [''lunch_20250101T110000''])) = EventsJson [review_event] \<and>
   appointments_in_range (store_with [yoga_row, review_row, lunch_row] [''yoga'']
          [''lunch_20250101T110000'']) =
     Inr \<lparr> data = Some [yoga_row, review_row, lunch_row], error = None \<rparr> \<and>
   ignored_base_ids (store_with [yoga_row, review_row, lunch_row] [''yoga'']
          [''lunch_20250101T110000'']) = Inr \<lparr> data = Some [''yoga''], error = None \<rparr> \<and>
   ignored_event_ids (store_with [yoga_row, review_row, lunch_row] [''yoga'']
          [''lunch_20250101T110000'']) =
     Inr \<lparr> data = Some [''lunch_20250101T110000''], error = None \<rparr> \<and>
   review_event \<in> set [review_event] \<and> lunch_event \<notin> set [review_event] \<and>
   (\<exists>r\<in>set (rows_or_empty \<lparr> data = Some [yoga_row, review_row, lunch_row], error = None \<rparr>).
       id' r \<notin> set (rows_or_empty \<lparr> data = Some [''lunch_20250101T110000''], error = None \<rparr>) \<and>
       getBaseIdFromEventId (id' r) \<notin> set (rows_or_empty \<lparr> data = Some [''yoga''], error = None \<rparr>) \<and>
       convert_and_mask (lifesynced_personal_reveal request_hidden = Some ''revealed'') r =
         Some review_event) \<and>
   \<not> not_ignored (set [''yoga'']) (set [''lunch_20250101T110000'']) yoga_row \<and>
   \<not> not_ignored (set [''yoga'']) (set [''lunch_20250101T110000'']) lunch_row \<and>
   not_ignored (set [''yoga'']) (set [''lunch_20250101T110000'']) review_row \<and>
   snd (GET request_hidden (store_with [yoga_row, review_row, lunch_row] [''yoga'']
          [''lunch_20250101T110000''])) =
     store_with [yoga_row, review_row, lunch_row] [''yoga''] [''lunch_20250101T110000'']"
proof -
  let ?db = "store_with [yoga_row, review_row, lunch_row] [''yoga''] [''lunch_20250101T110000'']"
  let ?B = "set [''yoga'']" and ?E = "set [''lunch_20250101T110000'']"
  have g: "fst (GET request_hidden ?db) = EventsJson [review_event]"
    by (simp only: GET_store_with GET_events_ignore_concrete)
  have a: "appointments_in_range ?db = Inr \<lparr> data = Some [yoga_row, review_row, lunch_row], error = None \<rparr>"
    and b: "ignored_base_ids ?db = Inr \<lparr> data = Some [''yoga''], error = None \<rparr>"
    and i: "ignored_event_ids ?db = Inr \<lparr> data = Some [''lunch_20250101T110000''], error = None \<rparr>"
    by (simp_all add: store_with_def)
  have y: "\<not> not_ignored ?B ?E yoga_row"
    using ignore_precedence [of ?B ?E yoga_row request_hidden ?db]
    by (simp add: row_ids base_ids_concrete)
  have l: "\<not> not_ignored ?B ?E lunch_row"
    using ignore_precedence [of ?B ?E lunch_row request_hidden ?db]
    by (simp add: row_ids base_ids_concrete)
  have r: "not_ignored ?B ?E review_row"
    using ignore_precedence [of ?B ?E review_row request_hidden ?db]
    by (simp add: row_ids base_ids_concrete)
  have s: "snd (GET request_hidden ?db) = ?db"
    using ignore_precedence [of ?B ?E review_row request_hidden ?db] by blast
  have m: "review_event \<in> set [review_event]" by simp
  have n: "lunch_event \<notin> set [review_event]"
    by (simp add: lunch_event_def review_event_def cal_def)
  have "review_event \<in> set [review_event] \<longleftrightarrow>
     (\<exists>r\<in>set (rows_or_empty \<lparr> data = Some [yoga_row, review_row, lunch_row], error = None \<rparr>).
       id' r \<notin> set (rows_or_empty \<lparr> data = Some [''lunch_20250101T110000''], error = None \<rparr>) \<and>
       getBaseIdFromEventId (id' r) \<notin> set (rows_or_empty \<lparr> data = Some [''yoga''], error = None \<rparr>) \<and>
       convert_and_mask (lifesynced_personal_reveal request_hidden = Some ''revealed'') r =
         Some review_event)"
    using ignore_precedence [of ?B ?E review_row request_hidden ?db "[review_event]"
        "\<lparr> data = Some [yoga_row, review_row, lunch_row], error = None \<rparr>"
        "\<lparr> data = Some [''yoga''], error = None \<rparr>"
        "\<lparr> data = Some [''lunch_20250101T110000''], error = None \<rparr>" review_event] g a b i
    by blast
  with m have ex: "\<exists>r\<in>set (rows_or_empty \<lparr> data = Some [yoga_row, review_row, lunch_row], error = None \<rparr>).
       id' r \<notin> set (rows_or_empty \<lparr> data = Some [''lunch_20250101T110000''], error = None \<rparr>) \<and>
       getBaseIdFromEventId (id' r) \<notin> set (rows_or_empty \<lparr> data = Some [''yoga''], error = None \<rparr>) \<and>
       convert_and_mask (lifesynced_personal_reveal request_hidden = Some ''revealed'') r =
         Some review_event"
    by blast
  from g a b i m n ex y l r s show ?thesis by blast
qed

subsection \<open>C10: validation of the returned events\<close>

text \<open>
  C10. Every event in the answer of \<open>GET\<close> has a non-empty id, start time and end
  time and one of the three known sources. A row with an empty id, start time or end
  time, or with another source, converts to \<open>null\<close>, and the answer of the request is
  the one it gives without that row: the row is dropped and nothing else changes.
\<close>

theorem output_validation:
  "(fst (GET request db) = EventsJson evs \<and> e \<in> set evs \<longrightarrow>
      ce_id e \<noteq> [] \<and> ce_start_time e \<noteq> [] \<and> ce_end_time e \<noteq> [] \<and>
      ce_source e \<in> {''graph_api'', ''ics'', ''apple_calendar''}) \<and>
   (id' apt = [] \<or> start_time apt = [] \<or> end_time apt = [] \<or>
    source apt \<notin> {''graph_api'', ''ics'', ''apple_calendar''} \<longrightarrow>
      toCalendarEvent (Some apt) = None \<and>
      fst (GET request (db\<lparr> appointments_in_range :=
                            Inr \<lparr> data = Some (xs @ apt # ys), error = None \<rparr> \<rparr>)) =
      fst (GET request (db\<lparr> appointments_in_range :=
                            Inr \<lparr> data = Some (xs @ ys), error = None \<rparr> \<rparr>)))"
proof (intro conjI impI)
  assume h: "fst (GET request db) = EventsJson evs \<and> e \<in> set evs"
  then obtain apts bases ids where
    "evs = GET_events (lifesynced_personal_reveal request = Some ''revealed'')
             (set (rows_or_empty bases)) (set (rows_or_empty ids)) (rows_or_empty apts)"
    using GET_EventsJsonD [of request db evs] by blast
  with h obtain r where r: "convert_and_mask (lifesynced_personal_reveal request = Some ''revealed'') r = Some e"
    by (auto simp: GET_events_set)
  show "ce_id e \<noteq> []" using convert_and_mask_SomeD(1,6) [OF r] by simp
  show "ce_start_time e \<noteq> []" using convert_and_mask_SomeD(2,7) [OF r] by simp
  show "ce_end_time e \<noteq> []" using convert_and_mask_SomeD(3,8) [OF r] by simp
  show "ce_source e \<in> {''graph_api'', ''ics'', ''apple_calendar''}"
    using convert_and_mask_SomeD(4,9) [OF r] by simp
next
  assume "id' apt = [] \<or> start_time apt = [] \<or> end_time apt = [] \<or>
    source apt \<notin> {''graph_api'', ''ics'', ''apple_calendar''}"
  then show n: "toCalendarEvent (Some apt) = None"
    by (simp only: toCalendarEvent_None_iff)
  show "fst (GET request (db\<lparr> appointments_in_range :=
                            Inr \<lparr> data = Some (xs @ apt # ys), error = None \<rparr> \<rparr>)) =
      fst (GET request (db\<lparr> appointments_in_range :=
                            Inr \<lparr> data = Some (xs @ ys), error = None \<rparr> \<rparr>))"
    by (rule GET_drop_invalid [OF n])
qed

theorem output_validation_witness:
  "fst (GET request_hidden (store_with [bad_row, review_row] [] [])) = EventsJson [review_event] \<and>
   review_event \<in> set [review_event] \<and>
   ce_id review_event \<noteq> [] \<and> ce_start_time review_event \<noteq> [] \<and>
   ce_end_time review_event \<noteq> [] \<and>
   ce_source review_event \<in> {''graph_api'', ''ics'', ''apple_calendar''} \<and>
   source bad_row \<notin> {''graph_api'', ''ics'', ''apple_calendar''} \<and>
   toCalendarEvent (Some bad_row) = None \<and>
   fst (GET request_hidden ((store_with [] [] [])\<lparr> appointments_in_range :=
          Inr \<lparr> data = Some ([] @ bad_row # [review_row]), error = None \<rparr> \<rparr>)) =
   fst (GET request_hidden ((store_with [] [] [])\<lparr> appointments_in_range :=
          Inr \<lparr> data = Some ([] @ [review_row]), error = None \<rparr> \<rparr>))"
proof -
  have g: "fst (GET request_hidden (store_with [bad_row, review_row] [] [])) = EventsJson [review_event]"
    using GET_events_bad_concrete by (simp only: GET_store_with)
  have m: "review_event \<in> set [review_event]" by simp
  have b: "source bad_row \<notin> {''graph_api'', ''ics'', ''apple_calendar''}"
    by (simp add: bad_row_def row_def)
  note t = output_validation [of request_hidden "store_with [bad_row, review_row] [] []"
      "[review_event]" review_event bad_row]
  from t g m have v: "ce_id review_event \<noteq> [] \<and> ce_start_time review_event \<noteq> [] \<and>
      ce_end_time review_event \<noteq> [] \<and>
      ce_source review_event \<in> {''graph_api'', ''ics'', ''apple_calendar''}"
    by blast
  from output_validation [of request_hidden "store_with [] [] []" "[review_event]" review_event bad_row
      "[]" "[review_row]"] b
  have d: "toCalendarEvent (Some bad_row) = None \<and>
    fst (GET request_hidden ((store_with [] [] [])\<lparr> appointments_in_range :=
          Inr \<lparr> data = Some ([] @ bad_row # [review_row]), error = None \<rparr> \<rparr>)) =
    fst (GET request_hidden ((store_with [] [] [])\<lparr> appointments_in_range :=
          Inr \<lparr> data = Some ([] @ [review_row]), error = None \<rparr> \<rparr>))"
    by blast
  from g m v b d show ?thesis by blast
qed

subsection \<open>C5: overlap semantics\<close>

lemma inner_fold_mem:
  "y \<in> fold (\<lambda>w acc. if P w then insert (f w) (insert x acc) else acc) ws acc \<longleftrightarrow>
     y \<in> acc \<or> (\<exists>w\<in>set ws. P w \<and> (y = f w \<or> y = x))"
  by (induction ws arbitrary: acc) auto

lemma outer_fold_mem:
  "y \<in> fold (\<lambda>p acc. fold (\<lambda>w acc. if Q p w then insert (f w) (insert (f p) acc) else acc) ws acc) ps acc \<longleftrightarrow>
     y \<in> acc \<or> (\<exists>p\<in>set ps. \<exists>w\<in>set ws. Q p w \<and> (y = f p \<or> y = f w))"
  by (induction ps arbitrary: acc) (auto simp: inner_fold_mem)

lemma overlap_mem:
  "x \<in> getOverlappingEventIds getTime True ignB ignE events \<longleftrightarrow>
     (\<exists>p\<in>set (personalEvents getTime ignB ignE events).
      \<exists>w\<in>set (workEvents ignB ignE events).
        times_overlap getTime p w \<and> (x = ce_id p \<or> x = ce_id w))"
  by (simp add: getOverlappingEventIds_def outer_fold_mem)

lemma times_overlap_iff:
  assumes "getTime (ce_start_time p) = Some ps" "getTime (ce_end_time p) = Some pe"
    "getTime (ce_start_time w) = Some ws" "getTime (ce_end_time w) = Some we"
  shows "times_overlap getTime p w \<longleftrightarrow> ps < we \<and> pe > ws"
  using assms by (simp add: times_overlap_def js_lt_def js_gt_def)

lemma isAllDayOrMultiDayFree_iff:
  "isAllDayOrMultiDayFree getTime ev \<longleftrightarrow>
     (ce_subject ev = ''[Free]'' \<or> ce_subject ev = ''Free'') \<and>
     (ce_is_all_day ev \<noteq> 0 \<or>
      (\<exists>s t. getTime (ce_start_time ev) = Some s \<and> getTime (ce_end_time ev) = Some t \<and>
             t - s \<ge> 86400000))"
  by (auto simp: isAllDayOrMultiDayFree_def split: option.splits)

text \<open>
  C5. With detection switched on, an id is in the overlap set exactly when it is the
  id of the personal or of the work member of a pair \<open>(p, w)\<close>, \<open>p\<close> from the personal
  events kept and \<open>w\<close> from the work events, with \<open>p.start < w.end\<close> and
  \<open>p.end > w.start\<close>. Intervals that touch at an end point do not overlap. The
  personal events kept are those of source \<open>apple_calendar\<close>, not ignored, except the
  ones whose subject is exactly \<open>Free\<close> or \<open>[Free]\<close> and which are all-day or last 24
  hours or more. A list of events of one category only flags nothing.
\<close>

theorem overlap_semantics:
  assumes "detectOverlap"
  shows "(x \<in> getOverlappingEventIds getTime detectOverlap ignoredBaseIds ignoredEventIds events \<longleftrightarrow>
            (\<exists>p\<in>set (personalEvents getTime ignoredBaseIds ignoredEventIds events).
             \<exists>w\<in>set (workEvents ignoredBaseIds ignoredEventIds events).
               times_overlap getTime p w \<and> (x = ce_id p \<or> x = ce_id w))) \<and>
         (getTime (ce_start_time p) = Some ps \<and> getTime (ce_end_time p) = Some pe \<and>
          getTime (ce_start_time w) = Some ws \<and> getTime (ce_end_time w) = Some we \<longrightarrow>
            (times_overlap getTime p w \<longleftrightarrow> ps < we \<and> pe > ws) \<and>
            (pe = ws \<or> ps = we \<longrightarrow> \<not> times_overlap getTime p w)) \<and>
         (q \<in> set (personalEvents getTime ignoredBaseIds ignoredEventIds events) \<longleftrightarrow>
            q \<in> set events \<and> ce_source q = ''apple_calendar'' \<and>
            \<not> isEventIgnored ignoredBaseIds ignoredEventIds q \<and>
            \<not> ((ce_subject q = ''[Free]'' \<or> ce_subject q = ''Free'') \<and>
               (ce_is_all_day q \<noteq> 0 \<or>
                (\<exists>s t. getTime (ce_start_time q) = Some s \<and> getTime (ce_end_time q) = Some t \<and>
                       t - s \<ge> 86400000)))) \<and>
         ((\<forall>e\<in>set events. ce_source e = ''apple_calendar'') \<or>
          (\<forall>e\<in>set events. ce_source e = ''graph_api'' \<or> ce_source e = ''ics'') \<longrightarrow>
            getOverlappingEventIds getTime detectOverlap ignoredBaseIds ignoredEventIds events = {})"
proof (intro conjI impI)
  from assms have d: "detectOverlap = True" by simp
  show "x \<in> getOverlappingEventIds getTime detectOverlap ignoredBaseIds ignoredEventIds events \<longleftrightarrow>
            (\<exists>p\<in>set (personalEvents getTime ignoredBaseIds ignoredEventIds events).
             \<exists>w\<in>set (workEvents ignoredBaseIds ignoredEventIds events).
               times_overlap getTime p w \<and> (x = ce_id p \<or> x = ce_id w))"
    unfolding d by (rule overlap_mem)
  show "q \<in> set (personalEvents getTime ignoredBaseIds ignoredEventIds events) \<longleftrightarrow>
            q \<in> set events \<and> ce_source q = ''apple_calendar'' \<and>
            \<not> isEventIgnored ignoredBaseIds ignoredEventIds q \<and>
            \<not> ((ce_subject q = ''[Free]'' \<or> ce_subject q = ''Free'') \<and>
               (ce_is_all_day q \<noteq> 0 \<or>
                (\<exists>s t. getTime (ce_start_time q) = Some s \<and> getTime (ce_end_time q) = Some t \<and>
                       t - s \<ge> 86400000)))"
    by (simp only: personalEvents_def set_filter mem_Collect_eq isAllDayOrMultiDayFree_iff)
  {
    assume "(\<forall>e\<in>set events. ce_source e = ''apple_calendar'') \<or>
          (\<forall>e\<in>set events. ce_source e = ''graph_api'' \<or> ce_source e = ''ics'')"
    then have "personalEvents getTime ignoredBaseIds ignoredEventIds events = [] \<or>
               workEvents ignoredBaseIds ignoredEventIds events = []"
      by (auto simp: personalEvents_def workEvents_def filter_empty_conv)
    then have "\<And>y. y \<notin> getOverlappingEventIds getTime True ignoredBaseIds ignoredEventIds events"
      by (auto simp: overlap_mem)
    then show "getOverlappingEventIds getTime detectOverlap ignoredBaseIds ignoredEventIds events = {}"
      unfolding d by blast
  }
next
  assume h: "getTime (ce_start_time p) = Some ps \<and> getTime (ce_end_time p) = Some pe \<and>
          getTime (ce_start_time w) = Some ws \<and> getTime (ce_end_time w) = Some we"
  then show i: "times_overlap getTime p w \<longleftrightarrow> ps < we \<and> pe > ws"
    using times_overlap_iff [of getTime p ps pe w ws we] by blast
  assume "pe = ws \<or> ps = we"
  with i show "\<not> times_overlap getTime p w" by auto
qed

lemma day_times_eval:
  "day_times ''2025-01-01T00:00:00+00:00'' = Some 1735689600000"
  "day_times ''2025-01-01T10:00:00+00:00'' = Some 1735725600000"
  "day_times ''2025-01-01T10:30:00+00:00'' = Some 1735727400000"
  "day_times ''2025-01-01T11:00:00+00:00'' = Some 1735729200000"
  "day_times ''2025-01-01T11:30:00+00:00'' = Some 1735731000000"
  "day_times ''2025-01-01T12:00:00+00:00'' = Some 1735732800000"
  "day_times ''2025-01-02T00:00:00+00:00'' = Some 1735776000000"
  by (simp_all add: day_times_def)

lemma event_fields:
  "ce_id (cal i subj s e a src loc) = i" "ce_subject (cal i subj s e a src loc) = subj"
  "ce_start_time (cal i subj s e a src loc) = s" "ce_end_time (cal i subj s e a src loc) = e"
  "ce_source (cal i subj s e a src loc) = src" "ce_is_all_day (cal i subj s e a src loc) = a"
  by (simp_all add: cal_def)

lemma overlap_yoga:
  "getOverlappingEventIds day_times True {} {} [yoga_event, lunch_event, review_event] =
     {''yoga_20250101T100000'', ''review_20250101T103000''}"
  by (simp add: getOverlappingEventIds_def personalEvents_def workEvents_def isEventIgnored_def
      isAllDayOrMultiDayFree_def times_overlap_def js_lt_def js_gt_def day_times_eval event_fields
      yoga_event_def lunch_event_def review_event_def insert_commute)

lemma overlap_free_revealed:
  "getOverlappingEventIds day_times True {} {} [free_event, review_event] = {}"
  by (simp add: getOverlappingEventIds_def personalEvents_def workEvents_def isEventIgnored_def
      isAllDayOrMultiDayFree_def times_overlap_def js_lt_def js_gt_def day_times_eval event_fields
      free_event_def review_event_def)

lemma overlap_free_masked:
  "getOverlappingEventIds day_times True {} {} [masked_free_event, review_event] =
     {''free_20250101T000000'', ''review_20250101T103000''}"
  by (simp add: getOverlappingEventIds_def personalEvents_def workEvents_def isEventIgnored_def
      isAllDayOrMultiDayFree_def times_overlap_def js_lt_def js_gt_def day_times_eval event_fields
      masked_free_event_def review_event_def insert_commute)

theorem overlap_semantics_witness:
  "personalEvents day_times {} {} [yoga_event, lunch_event, review_event] = [yoga_event] \<and>
   workEvents {} {} [yoga_event, lunch_event, review_event] = [lunch_event, review_event] \<and>
   times_overlap day_times yoga_event review_event \<and>
   \<not> times_overlap day_times yoga_event lunch_event \<and>
   ce_id yoga_event \<in> getOverlappingEventIds day_times True {} {} [yoga_event, lunch_event, review_event] \<and>
   ce_id review_event \<in> getOverlappingEventIds day_times True {} {} [yoga_event, lunch_event, review_event] \<and>
   ce_id lunch_event \<notin> getOverlappingEventIds day_times True {} {} [yoga_event, lunch_event, review_event] \<and>
   free_event \<notin> set (personalEvents day_times {} {} [free_event, review_event]) \<and>
   getOverlappingEventIds day_times True {} {} [lunch_event, review_event] = {}"
proof -
  let ?evs = "[yoga_event, lunch_event, review_event]"
  have pe: "personalEvents day_times {} {} ?evs = [yoga_event]"
    by (simp add: personalEvents_def isEventIgnored_def isAllDayOrMultiDayFree_def event_fields
        yoga_event_def lunch_event_def review_event_def)
  have we: "workEvents {} {} ?evs = [lunch_event, review_event]"
    by (simp add: workEvents_def isEventIgnored_def event_fields
        yoga_event_def lunch_event_def review_event_def)
  have ty: "day_times (ce_start_time yoga_event) = Some 1735725600000 \<and>
            day_times (ce_end_time yoga_event) = Some 1735729200000"
    by (simp add: yoga_event_def event_fields day_times_eval)
  have tr: "day_times (ce_start_time review_event) = Some 1735727400000 \<and>
            day_times (ce_end_time review_event) = Some 1735731000000"
    by (simp add: review_event_def event_fields day_times_eval)
  have tl: "day_times (ce_start_time lunch_event) = Some 1735729200000 \<and>
            day_times (ce_end_time lunch_event) = Some 1735732800000"
    by (simp add: lunch_event_def event_fields day_times_eval)
  have o1: "times_overlap day_times yoga_event review_event"
    using overlap_semantics [of True _ day_times "{}" "{}" ?evs yoga_event 1735725600000
        1735729200000 review_event 1735727400000 1735731000000] ty tr
    by simp
  have o2: "\<not> times_overlap day_times yoga_event lunch_event"
    using overlap_semantics [of True _ day_times "{}" "{}" ?evs yoga_event 1735725600000
        1735729200000 lunch_event 1735729200000 1735732800000] ty tl
    by simp
  have ids: "ce_id lunch_event \<noteq> ce_id yoga_event" "ce_id lunch_event \<noteq> ce_id review_event"
    by (simp_all add: yoga_event_def lunch_event_def review_event_def event_fields)
  have m1: "ce_id yoga_event \<in> getOverlappingEventIds day_times True {} {} ?evs"
    using overlap_semantics [of True "ce_id yoga_event" day_times "{}" "{}" ?evs] pe we o1
    by simp
  have m2: "ce_id review_event \<in> getOverlappingEventIds day_times True {} {} ?evs"
    using overlap_semantics [of True "ce_id review_event" day_times "{}" "{}" ?evs] pe we o1
    by simp
  have m3: "ce_id lunch_event \<notin> getOverlappingEventIds day_times True {} {} ?evs"
    using overlap_semantics [of True "ce_id lunch_event" day_times "{}" "{}" ?evs] pe we o2 ids
    by simp
  have f: "free_event \<notin> set (personalEvents day_times {} {} [free_event, review_event])"
    using overlap_semantics [of True _ day_times "{}" "{}" "[free_event, review_event]" _ _ _ _ _ _
        free_event]
    by (simp add: free_event_def event_fields)
  have sc: "getOverlappingEventIds day_times True {} {} [lunch_event, review_event] = {}"
    using overlap_semantics [of True _ day_times "{}" "{}" "[lunch_event, review_event]"]
    by (simp add: lunch_event_def review_event_def event_fields)
  from pe we o1 o2 m1 m2 m3 f sc show ?thesis by blast
qed

subsection \<open>C6: masking and the overlap set\<close>

text \<open>
  C6 fails on the code. The store holds a personal all-day event named \<open>Free\<close> and a
  work event from 10:30 to 11:30 on the same day. With the reveal cookie the page
  receives the subject \<open>Free\<close>, drops the event from overlap detection and flags
  nothing. Without the cookie the handler has replaced the subject by
  \<open>[Personal Event]\<close> before the page sees it, the test for \<open>Free\<close> no longer
  matches, and both events are flagged.
\<close>

theorem masking_changes_overlap:
  "fst (GET request_revealed (store_with [free_row, review_row] [] [])) =
     EventsJson [free_event, review_event] \<and>
   fst (GET request_hidden (store_with [free_row, review_row] [] [])) =
     EventsJson [masked_free_event, review_event] \<and>
   getOverlappingEventIds day_times True {} {} [free_event, review_event] = {} \<and>
   getOverlappingEventIds day_times True {} {} [masked_free_event, review_event] =
     {''free_20250101T000000'', ''review_20250101T103000''}"
  using GET_events_free_concrete
  by (simp add: GET_store_with overlap_free_revealed overlap_free_masked)

subsection \<open>The column layout\<close>

lemma slots_overlap_sym: "slots_overlap a b \<longleftrightarrow> slots_overlap b a"
  by (auto simp: slots_overlap_def)

lemma slots_overlap_upd [simp]:
  "slots_overlap (a\<lparr>column := k\<rparr>) b = slots_overlap a b"
  "slots_overlap a (b\<lparr>column := k\<rparr>) = slots_overlap a b"
  by (simp_all add: slots_overlap_def)

lemma first_free_taken:
  "list_ex (\<lambda>g. column g = col \<and> slots_overlap s g) members \<Longrightarrow>
     first_free_column members s col = first_free_column members s (Suc col)"
  by (subst first_free_column.simps) simp

lemma first_free_free:
  "\<not> list_ex (\<lambda>g. column g = col \<and> slots_overlap s g) members \<Longrightarrow>
     first_free_column members s col = col"
  by (subst first_free_column.simps) simp

lemma assign_three:
  assumes "slots_overlap a b" "slots_overlap a c" "slots_overlap b c"
  shows "assign_columns [a, b, c] =
           ([a\<lparr>column := 0\<rparr>, b\<lparr>column := 1\<rparr>, c\<lparr>column := 2\<rparr>], [[0, 1, 2]])"
proof -
  have ba: "slots_overlap b a" and ca: "slots_overlap c a" and cb: "slots_overlap c b"
    using assms slots_overlap_sym by blast+
  have c1: "first_free_column [a\<lparr>column := 0\<rparr>] b 0 = 1"
    using ba by (simp add: first_free_taken first_free_free)
  have c2: "first_free_column [a\<lparr>column := 0\<rparr>, b\<lparr>column := Suc 0\<rparr>] c 0 = Suc (Suc 0)"
  proof -
    have "first_free_column [a\<lparr>column := 0\<rparr>, b\<lparr>column := Suc 0\<rparr>] c 0 =
          first_free_column [a\<lparr>column := 0\<rparr>, b\<lparr>column := Suc 0\<rparr>] c (Suc 0)"
      using ca by (intro first_free_taken) simp
    also have "\<dots> = first_free_column [a\<lparr>column := 0\<rparr>, b\<lparr>column := Suc 0\<rparr>] c (Suc (Suc 0))"
      using cb by (intro first_free_taken) simp
    also have "\<dots> = Suc (Suc 0)"
      by (intro first_free_free) simp
    finally show ?thesis .
  qed
  have upt: "[0 ..< 3] = [0, 1, 2::nat]" by (simp add: upt_rec)
  show ?thesis
    using ba ca cb by (simp add: assign_columns_def upt c1 c2 numeral_2_eq_2)
qed

lemma assign_two_disjoint:
  assumes "\<not> slots_overlap a b"
  shows "assign_columns [a, b] = ([a\<lparr>column := 0\<rparr>, b\<lparr>column := 0\<rparr>], [[0], [1]])"
proof -
  have ba: "\<not> slots_overlap b a" using assms slots_overlap_sym by blast
  have upt: "[0 ..< 2] = [0, 1::nat]" by (simp add: upt_rec)
  show ?thesis using ba by (simp add: assign_columns_def upt)
qed

lemma sort_three:
  "sort_slots [x, y, z] \<in> {[x, y, z], [x, z, y], [y, x, z], [y, z, x], [z, x, y], [z, y, x]}"
  by (simp add: sort_slots_def)

lemma sort_two: "sort_slots [x, y] \<in> {[x, y], [y, x]}"
  by (simp add: sort_slots_def)

lemma layout_three_sorted:
  assumes "slots_overlap a b" "slots_overlap a c" "slots_overlap b c"
  shows "(case assign_columns [a, b, c] of (slots, groups) \<Rightarrow> fold write_total groups slots) =
           [a\<lparr>column := 0, totalColumns := 3\<rparr>, b\<lparr>column := 1, totalColumns := 3\<rparr>,
            c\<lparr>column := 2, totalColumns := 3\<rparr>]"
  by (simp add: assign_three [OF assms] write_total_def)

lemma layout_two_sorted:
  assumes "\<not> slots_overlap a b"
  shows "(case assign_columns [a, b] of (slots, groups) \<Rightarrow> fold write_total groups slots) =
           [a\<lparr>column := 0, totalColumns := 1\<rparr>, b\<lparr>column := 0, totalColumns := 1\<rparr>]"
  by (simp add: assign_two_disjoint [OF assms] write_total_def)

lemma layout_three:
  assumes "slots_overlap x y" "slots_overlap x z" "slots_overlap y z"
  shows "\<exists>a b c. {a, b, c} = {x, y, z} \<and>
           (case assign_columns (sort_slots [x, y, z]) of (slots, groups) \<Rightarrow> fold write_total groups slots) =
           [a\<lparr>column := 0, totalColumns := 3\<rparr>, b\<lparr>column := 1, totalColumns := 3\<rparr>,
            c\<lparr>column := 2, totalColumns := 3\<rparr>]"
proof -
  have sym: "slots_overlap y x" "slots_overlap z x" "slots_overlap z y"
    using assms slots_overlap_sym by blast+
  from sort_three [of x y z]
  consider "sort_slots [x, y, z] = [x, y, z]" | "sort_slots [x, y, z] = [x, z, y]"
    | "sort_slots [x, y, z] = [y, x, z]" | "sort_slots [x, y, z] = [y, z, x]"
    | "sort_slots [x, y, z] = [z, x, y]" | "sort_slots [x, y, z] = [z, y, x]"
    by auto
  then show ?thesis
  proof cases
    case 1
    show ?thesis unfolding 1 layout_three_sorted [OF assms(1) assms(2) assms(3)]
      by (intro exI [of _ x] exI [of _ y] exI [of _ z]) auto
  next
    case 2
    show ?thesis unfolding 2 layout_three_sorted [OF assms(2) assms(1) sym(3)]
      by (intro exI [of _ x] exI [of _ z] exI [of _ y]) auto
  next
    case 3
    show ?thesis unfolding 3 layout_three_sorted [OF sym(1) assms(3) assms(2)]
      by (intro exI [of _ y] exI [of _ x] exI [of _ z]) auto
  next
    case 4
    show ?thesis unfolding 4 layout_three_sorted [OF assms(3) sym(1) sym(2)]
      by (intro exI [of _ y] exI [of _ z] exI [of _ x]) auto
  next
    case 5
    show ?thesis unfolding 5 layout_three_sorted [OF sym(2) sym(3) assms(1)]
      by (intro exI [of _ z] exI [of _ x] exI [of _ y]) auto
  next
    case 6
    show ?thesis unfolding 6 layout_three_sorted [OF sym(3) sym(2) sym(1)]
      by (intro exI [of _ z] exI [of _ y] exI [of _ x]) auto
  qed
qed

lemma layout_two:
  assumes "\<not> slots_overlap x y"
  shows "\<exists>a b. {a, b} = {x, y} \<and>
           (case assign_columns (sort_slots [x, y]) of (slots, groups) \<Rightarrow> fold write_total groups slots) =
           [a\<lparr>column := 0, totalColumns := 1\<rparr>, b\<lparr>column := 0, totalColumns := 1\<rparr>]"
proof -
  have sym: "\<not> slots_overlap y x" using assms slots_overlap_sym by blast
  from sort_two [of x y]
  consider "sort_slots [x, y] = [x, y]" | "sort_slots [x, y] = [y, x]" by auto
  then show ?thesis
  proof cases
    case 1
    show ?thesis unfolding 1 layout_two_sorted [OF assms]
      by (intro exI [of _ x] exI [of _ y]) auto
  next
    case 2
    show ?thesis unfolding 2 layout_two_sorted [OF sym]
      by (intro exI [of _ y] exI [of _ x]) auto
  qed
qed

lemma event_to_slot [simp]: "event (to_slot gh gm e) = e"
  by (simp add: to_slot_def Let_def)

subsection \<open>C8: layout column count\<close>

text \<open>
  C8, as the code has it. A day that consists of exactly three events whose clamped
  hour ranges intersect pairwise: in the sorted order the slots get the columns 0, 1
  and 2, each with \<open>totalColumns\<close> 3, and the three slots are those of the three
  events. A day that consists of exactly two events whose hour ranges do not
  intersect: both slots get column 0 and \<open>totalColumns\<close> 1.
\<close>

theorem layout_column_count:
  "(slots_overlap (to_slot getHours getMinutes e1) (to_slot getHours getMinutes e2) \<and>
    slots_overlap (to_slot getHours getMinutes e1) (to_slot getHours getMinutes e3) \<and>
    slots_overlap (to_slot getHours getMinutes e2) (to_slot getHours getMinutes e3) \<longrightarrow>
      map column (layout_slots getHours getMinutes [e1, e2, e3]) = [0, 1, 2] \<and>
      map totalColumns (layout_slots getHours getMinutes [e1, e2, e3]) = [3, 3, 3] \<and>
      set (map event (layout_slots getHours getMinutes [e1, e2, e3])) = {e1, e2, e3}) \<and>
   (\<not> slots_overlap (to_slot getHours getMinutes e1) (to_slot getHours getMinutes e2) \<longrightarrow>
      map column (layout_slots getHours getMinutes [e1, e2]) = [0, 0] \<and>
      map totalColumns (layout_slots getHours getMinutes [e1, e2]) = [1, 1] \<and>
      set (map event (layout_slots getHours getMinutes [e1, e2])) = {e1, e2})"
proof (intro conjI impI)
  let ?s = "to_slot getHours getMinutes"
  assume h: "slots_overlap (?s e1) (?s e2) \<and> slots_overlap (?s e1) (?s e3) \<and>
    slots_overlap (?s e2) (?s e3)"
  then obtain a b c where abc: "{a, b, c} = {?s e1, ?s e2, ?s e3}"
    and l: "layout_slots getHours getMinutes [e1, e2, e3] =
           [a\<lparr>column := 0, totalColumns := 3\<rparr>, b\<lparr>column := 1, totalColumns := 3\<rparr>,
            c\<lparr>column := 2, totalColumns := 3\<rparr>]"
    using layout_three [of "?s e1" "?s e2" "?s e3"] by (auto simp: layout_slots_def)
  show "map column (layout_slots getHours getMinutes [e1, e2, e3]) = [0, 1, 2]"
    by (simp add: l)
  show "map totalColumns (layout_slots getHours getMinutes [e1, e2, e3]) = [3, 3, 3]"
    by (simp add: l)
  have "set (map event (layout_slots getHours getMinutes [e1, e2, e3])) = event ` {a, b, c}"
    by (simp add: l)
  also have "\<dots> = {e1, e2, e3}" unfolding abc by simp
  finally show "set (map event (layout_slots getHours getMinutes [e1, e2, e3])) = {e1, e2, e3}" .
next
  let ?s = "to_slot getHours getMinutes"
  assume h: "\<not> slots_overlap (?s e1) (?s e2)"
  then obtain a b where ab: "{a, b} = {?s e1, ?s e2}"
    and l: "layout_slots getHours getMinutes [e1, e2] =
           [a\<lparr>column := 0, totalColumns := 1\<rparr>, b\<lparr>column := 0, totalColumns := 1\<rparr>]"
    using layout_two [of "?s e1" "?s e2"] by (auto simp: layout_slots_def)
  show "map column (layout_slots getHours getMinutes [e1, e2]) = [0, 0]"
    by (simp add: l)
  show "map totalColumns (layout_slots getHours getMinutes [e1, e2]) = [1, 1]"
    by (simp add: l)
  have "set (map event (layout_slots getHours getMinutes [e1, e2])) = event ` {a, b}"
    by (simp add: l)
  also have "\<dots> = {e1, e2}" unfolding ab by simp
  finally show "set (map event (layout_slots getHours getMinutes [e1, e2])) = {e1, e2}" .
qed

lemma cal_fields:
  "ce_id (cal i subj s e a src loc) = i" "ce_start_time (cal i subj s e a src loc) = s"
  "ce_end_time (cal i subj s e a src loc) = e"
  by (simp_all add: cal_def)

lemma day_slots:
  "startHour (to_slot day_hours day_minutes yoga_event) = 10"
  "endHour (to_slot day_hours day_minutes yoga_event) = 11"
  "startHour (to_slot day_hours day_minutes review_event) = 21 / 2"
  "endHour (to_slot day_hours day_minutes review_event) = 23 / 2"
  "startHour (to_slot day_hours day_minutes standup_event) = 43 / 4"
  "endHour (to_slot day_hours day_minutes standup_event) = 45 / 4"
  "startHour (to_slot day_hours day_minutes lunch_event) = 11"
  "endHour (to_slot day_hours day_minutes lunch_event) = 12"
  by (simp_all add: to_slot_def day_hours_def day_minutes_def gridStartHour_def gridEndHour_def
      yoga_event_def review_event_def standup_event_def lunch_event_def cal_fields)

theorem layout_column_count_witness:
  "slots_overlap (to_slot day_hours day_minutes yoga_event) (to_slot day_hours day_minutes review_event) \<and>
   slots_overlap (to_slot day_hours day_minutes yoga_event) (to_slot day_hours day_minutes standup_event) \<and>
   slots_overlap (to_slot day_hours day_minutes review_event) (to_slot day_hours day_minutes standup_event) \<and>
   map column (layout_slots day_hours day_minutes [yoga_event, review_event, standup_event]) = [0, 1, 2] \<and>
   map totalColumns (layout_slots day_hours day_minutes [yoga_event, review_event, standup_event]) = [3, 3, 3] \<and>
   \<not> slots_overlap (to_slot day_hours day_minutes yoga_event) (to_slot day_hours day_minutes lunch_event) \<and>
   map column (layout_slots day_hours day_minutes [yoga_event, lunch_event]) = [0, 0] \<and>
   map totalColumns (layout_slots day_hours day_minutes [yoga_event, lunch_event]) = [1, 1]"
proof -
  have o: "slots_overlap (to_slot day_hours day_minutes yoga_event) (to_slot day_hours day_minutes review_event)"
    "slots_overlap (to_slot day_hours day_minutes yoga_event) (to_slot day_hours day_minutes standup_event)"
    "slots_overlap (to_slot day_hours day_minutes review_event) (to_slot day_hours day_minutes standup_event)"
    by (simp_all add: slots_overlap_def day_slots)
  have n: "\<not> slots_overlap (to_slot day_hours day_minutes yoga_event) (to_slot day_hours day_minutes lunch_event)"
    by (simp add: slots_overlap_def day_slots)
  from layout_column_count [of day_hours day_minutes yoga_event review_event standup_event] o
  have t: "map column (layout_slots day_hours day_minutes [yoga_event, review_event, standup_event]) = [0, 1, 2] \<and>
   map totalColumns (layout_slots day_hours day_minutes [yoga_event, review_event, standup_event]) = [3, 3, 3]"
    by blast
  from layout_column_count [of day_hours day_minutes yoga_event lunch_event] n
  have d: "map column (layout_slots day_hours day_minutes [yoga_event, lunch_event]) = [0, 0] \<and>
   map totalColumns (layout_slots day_hours day_minutes [yoga_event, lunch_event]) = [1, 1]"
    by blast
  from o n t d show ?thesis by blast
qed

lemma sorted_day:
  "sort_slots (map (to_slot day_hours day_minutes) [lunch_event, review_event, yoga_event]) =
     [to_slot day_hours day_minutes yoga_event, to_slot day_hours day_minutes review_event,
      to_slot day_hours day_minutes lunch_event]"
  by (simp add: sort_slots_def slot_compare_def day_slots)

lemma day_overlaps:
  "slots_overlap (to_slot day_hours day_minutes review_event) (to_slot day_hours day_minutes yoga_event)"
  "slots_overlap (to_slot day_hours day_minutes lunch_event) (to_slot day_hours day_minutes review_event)"
  "\<not> slots_overlap (to_slot day_hours day_minutes lunch_event) (to_slot day_hours day_minutes yoga_event)"
  "\<not> slots_overlap (to_slot day_hours day_minutes yoga_event) (to_slot day_hours day_minutes lunch_event)"
  by (simp_all add: slots_overlap_def day_slots)

lemma assign_day:
  assumes "slots_overlap b a" "slots_overlap c b" "\<not> slots_overlap c a"
  shows "assign_columns [a, b, c] =
           ([a\<lparr>column := 0\<rparr>, b\<lparr>column := Suc 0\<rparr>, c\<lparr>column := 0\<rparr>], [[0, 1, 2]])"
proof -
  have c1: "first_free_column [a\<lparr>column := 0\<rparr>] b 0 = Suc 0"
    using assms(1) by (simp add: first_free_taken first_free_free)
  have c2: "first_free_column [a\<lparr>column := 0\<rparr>, b\<lparr>column := Suc 0\<rparr>] c 0 = 0"
    using assms(3) by (intro first_free_free) simp
  have upt: "[0 ..< 3] = [0, 1, 2::nat]" by (simp add: upt_rec)
  show ?thesis
    using assms by (simp add: assign_columns_def upt c1 c2 numeral_2_eq_2)
qed

lemma day_ids:
  "ce_id yoga_event = ''yoga_20250101T100000''" "ce_id review_event = ''review_20250101T103000''"
  "ce_id lunch_event = ''lunch_20250101T110000''"
  by (simp_all add: yoga_event_def review_event_def lunch_event_def cal_fields)

lemma layout_day:
  "layout_slots day_hours day_minutes [lunch_event, review_event, yoga_event] =
     [(to_slot day_hours day_minutes yoga_event)\<lparr>column := 0, totalColumns := 2\<rparr>,
      (to_slot day_hours day_minutes review_event)\<lparr>column := Suc 0, totalColumns := 2\<rparr>,
      (to_slot day_hours day_minutes lunch_event)\<lparr>column := 0, totalColumns := 2\<rparr>]"
proof -
  have "layout_slots day_hours day_minutes [lunch_event, review_event, yoga_event] =
      (case assign_columns [to_slot day_hours day_minutes yoga_event,
              to_slot day_hours day_minutes review_event, to_slot day_hours day_minutes lunch_event] of
         (slots, groups) \<Rightarrow> fold write_total groups slots)"
    unfolding layout_slots_def sorted_day ..
  also have "\<dots> = [(to_slot day_hours day_minutes yoga_event)\<lparr>column := 0, totalColumns := 2\<rparr>,
      (to_slot day_hours day_minutes review_event)\<lparr>column := Suc 0, totalColumns := 2\<rparr>,
      (to_slot day_hours day_minutes lunch_event)\<lparr>column := 0, totalColumns := 2\<rparr>]"
    unfolding assign_day [OF day_overlaps(1,2,3)] by (simp add: write_total_def)
  finally show ?thesis .
qed

text \<open>
  The claim as written, for every input of a day, fails when the day holds another
  event. Yoga from 10:00 to 11:00 and lunch from 11:00 to 12:00 do not intersect, but
  with a review from 10:30 to 11:30 on the same day all three are one group: yoga and
  lunch both get column 0 and \<open>totalColumns\<close> 2.
\<close>

theorem layout_extra_event_counterexample:
  "\<not> slots_overlap (to_slot day_hours day_minutes yoga_event) (to_slot day_hours day_minutes lunch_event) \<and>
   map (\<lambda>s. (ce_id (event s), column s, totalColumns s))
     (layout_slots day_hours day_minutes [lunch_event, review_event, yoga_event]) =
     [(''yoga_20250101T100000'', 0, 2), (''review_20250101T103000'', 1, 2),
      (''lunch_20250101T110000'', 0, 2)]"
  by (simp add: layout_day day_overlaps(4) day_ids)

subsection \<open>The sync pass\<close>

lemma POST_unfold:
  assumes "sync_feeds w clk Ics (fst (configured_feeds w)) = (r1, c1)"
    "sync_feeds w c1 AppleCalendar (snd (configured_feeds w)) = (r2, c2)"
  shows "POST w clk =
     (case upsert_sync_metadata w of
        Inl err \<Rightarrow>
          \<lparr> http_status = 500, success = False, message = None,
            error_text = Some ''Sync failed'', details = Some (error_message err),
            results = r1 @ r2, all_errors = None \<rparr>
      | Inr _ \<Rightarrow>
          \<lparr> http_status = 200, success = True,
            message = Some (''Sync complete: '' @ dec_str (sum_list (map added (r1 @ r2))) @ '' added, '' @
                            dec_str (sum_list (map updated (r1 @ r2))) @ '' updated''),
            error_text = None, details = None,
            results = r1 @ r2,
            all_errors = (if length (concat (map errors (r1 @ r2))) > 0
                          then Some (concat (map errors (r1 @ r2))) else None) \<rparr>)"
  unfolding POST_def assms prod.case Let_def ..

lemma POST_results:
  "results (POST w clk) =
     fst (sync_feeds w clk Ics (fst (configured_feeds w))) @
     fst (sync_feeds w (snd (sync_feeds w clk Ics (fst (configured_feeds w)))) AppleCalendar
            (snd (configured_feeds w)))"
proof -
  obtain r1 c1 where a: "sync_feeds w clk Ics (fst (configured_feeds w)) = (r1, c1)"
    by (cases "sync_feeds w clk Ics (fst (configured_feeds w))") auto
  obtain r2 c2 where b: "sync_feeds w c1 AppleCalendar (snd (configured_feeds w)) = (r2, c2)"
    by (cases "sync_feeds w c1 AppleCalendar (snd (configured_feeds w))") auto
  have "results (POST w clk) = r1 @ r2"
    unfolding POST_unfold [OF a b] by (cases "upsert_sync_metadata w") simp_all
  then show ?thesis by (simp add: a b)
qed

lemma POST_success:
  assumes "upsert_sync_metadata w = Inr m"
  shows "success (POST w clk)" "http_status (POST w clk) = 200"
    "all_errors (POST w clk) =
       (if concat (map errors (results (POST w clk))) = [] then None
        else Some (concat (map errors (results (POST w clk)))))"
proof -
  obtain r1 c1 where a: "sync_feeds w clk Ics (fst (configured_feeds w)) = (r1, c1)"
    by (cases "sync_feeds w clk Ics (fst (configured_feeds w))") auto
  obtain r2 c2 where b: "sync_feeds w c1 AppleCalendar (snd (configured_feeds w)) = (r2, c2)"
    by (cases "sync_feeds w c1 AppleCalendar (snd (configured_feeds w))") auto
  note p = POST_unfold [OF a b, unfolded assms sum.case]
  show "success (POST w clk)" unfolding p by simp
  show "http_status (POST w clk) = 200" unfolding p by simp
  show "all_errors (POST w clk) =
       (if concat (map errors (results (POST w clk))) = [] then None
        else Some (concat (map errors (results (POST w clk)))))"
    unfolding p by (simp del: concat_eq_Nil_conv)
qed

lemma POST_failure:
  assumes "upsert_sync_metadata w = Inl err"
  shows "\<not> success (POST w clk)" "http_status (POST w clk) = 500"
    "details (POST w clk) = Some (error_message err)" "all_errors (POST w clk) = None"
proof -
  obtain r1 c1 where a: "sync_feeds w clk Ics (fst (configured_feeds w)) = (r1, c1)"
    by (cases "sync_feeds w clk Ics (fst (configured_feeds w))") auto
  obtain r2 c2 where b: "sync_feeds w c1 AppleCalendar (snd (configured_feeds w)) = (r2, c2)"
    by (cases "sync_feeds w c1 AppleCalendar (snd (configured_feeds w))") auto
  note p = POST_unfold [OF a b, unfolded assms sum.case]
  show "\<not> success (POST w clk)" unfolding p by simp
  show "http_status (POST w clk) = 500" unfolding p by simp
  show "details (POST w clk) = Some (error_message err)" unfolding p by simp
  show "all_errors (POST w clk) = None" unfolding p by simp
qed

lemma syncIcsCalendar_source:
  "sr_source (fst (syncIcsCalendar w clk url src)) = source_str src"
  by (simp add: syncIcsCalendar_def Let_def split: sum.split prod.split option.split)

lemma sync_feeds_sources:
  "map sr_source (fst (sync_feeds w clk src urls)) = map (\<lambda>u. source_str src) urls"
proof (induction urls arbitrary: clk)
  case Nil
  show ?case by simp
next
  case (Cons u urls)
  obtain r c where s: "syncIcsCalendar w clk u src = (r, c)"
    by (cases "syncIcsCalendar w clk u src") auto
  have "sr_source r = source_str src"
    using syncIcsCalendar_source [of w clk u src] s by simp
  with Cons [of c] s show ?case by (auto split: prod.splits)
qed

lemma POST_results_sources:
  "map sr_source (results (POST w clk)) =
     map (\<lambda>u. ''ics'') (fst (configured_feeds w)) @
     map (\<lambda>u. ''apple_calendar'') (snd (configured_feeds w))"
  unfolding POST_results using sync_feeds_sources [of w _ Ics] sync_feeds_sources [of w _ AppleCalendar]
  by simp

lemma sync_fetch_throws:
  assumes "fetch w url = Inl err"
  shows "syncIcsCalendar w clk url src =
           (\<lparr> sr_source = source_str src, added = 0, updated = 0, errors = [error_message err] \<rparr>, clk)"
  using assms by (simp add: syncIcsCalendar_def)

lemma failing_world_fields:
  "OUTLOOK_ICS_URL failing_world = Some ''https://work.example/cal.ics''"
  "APPLE_CALENDAR_ICS_URL failing_world = Some ''https://home.example/cal.ics''"
  "fetch failing_world url = Inl (ErrorObj ''fetch failed'')"
  "upsert_sync_metadata failing_world = Inr None"
  "OUTLOOK_ICS_URL unconfigured_world = Some ''https://work.example/cal.ics''"
  "APPLE_CALENDAR_ICS_URL unconfigured_world = Some ''https://home.example/cal.ics''"
  "fetch unconfigured_world url = Inl (ErrorObj ''fetch failed'')"
  "upsert_sync_metadata unconfigured_world =
     Inl (ErrorObj ''Supabase environment variables not configured.'')"
  by (simp_all add: failing_world_def unconfigured_world_def)

lemma trim_url: "trim ''https://home.example/cal.ics'' = ''https://home.example/cal.ics''"
  by code_simp

lemma split_url:
  "split_on CHR '','' ''https://home.example/cal.ics'' = [''https://home.example/cal.ics'']"
  by (rule split_on_no_sep) simp

lemma failing_feeds:
  "configured_feeds failing_world = ([''https://work.example/cal.ics''], [''https://home.example/cal.ics''])"
  "configured_feeds unconfigured_world = ([''https://work.example/cal.ics''], [''https://home.example/cal.ics''])"
  by (simp_all add: configured_feeds_def failing_world_fields split_url trim_url)

lemma failing_results:
  "results (POST failing_world clk) = fetch_failed_results"
  "results (POST unconfigured_world clk) = fetch_failed_results"
  by (simp_all add: POST_results failing_feeds sync_fetch_throws failing_world_fields
      fetch_failed_results_def)

lemma fetch_failed_errors:
  "concat (map errors fetch_failed_results) = [''fetch failed'', ''fetch failed'']"
  by (simp add: fetch_failed_results_def)

subsection \<open>C9: what the sync pass reports\<close>

text \<open>
  C9, as the code has it. \<open>syncIcsCalendar\<close> catches every exception of its feed
  and records it in the feed's own result, so the pass has one result per configured
  feed. When the final write of the sync metadata does not throw, the response
  reports success with status 200 and the list of all per-feed errors, whether some,
  none or all of the feeds failed. Only when that write throws does the response
  report failure, with status 500 and the message of the exception.
\<close>

theorem sync_failure_reporting:
  "(upsert_sync_metadata w = Inr m \<longrightarrow>
      success (POST w clk) \<and> http_status (POST w clk) = 200 \<and>
      all_errors (POST w clk) =
        (if concat (map errors (results (POST w clk))) = [] then None
         else Some (concat (map errors (results (POST w clk)))))) \<and>
   (upsert_sync_metadata w = Inl err \<longrightarrow>
      \<not> success (POST w clk) \<and> http_status (POST w clk) = 500 \<and>
      details (POST w clk) = Some (error_message err)) \<and>
   map sr_source (results (POST w clk)) =
     map (\<lambda>u. ''ics'') (fst (configured_feeds w)) @
     map (\<lambda>u. ''apple_calendar'') (snd (configured_feeds w)) \<and>
   (fetch w url = Inl e \<longrightarrow>
      errors (fst (syncIcsCalendar w clk' url src)) = [error_message e])"
  using POST_success [of w m clk] POST_failure [of w err clk] POST_results_sources [of w clk]
    sync_fetch_throws [of w url e clk' src]
  by simp

theorem sync_failure_reporting_witness:
  "upsert_sync_metadata failing_world = Inr None \<and>
   success (POST failing_world zero_clock) \<and>
   all_errors (POST failing_world zero_clock) = Some [''fetch failed'', ''fetch failed''] \<and>
   upsert_sync_metadata unconfigured_world =
     Inl (ErrorObj ''Supabase environment variables not configured.'') \<and>
   \<not> success (POST unconfigured_world zero_clock) \<and>
   http_status (POST unconfigured_world zero_clock) = 500 \<and>
   results (POST unconfigured_world zero_clock) = fetch_failed_results \<and>
   fetch failing_world ''https://work.example/cal.ics'' = Inl (ErrorObj ''fetch failed'') \<and>
   errors (fst (syncIcsCalendar failing_world zero_clock ''https://work.example/cal.ics'' Ics)) =
     [''fetch failed'']"
proof -
  have s: "success (POST failing_world zero_clock) \<and>
    all_errors (POST failing_world zero_clock) = Some [''fetch failed'', ''fetch failed'']"
    using sync_failure_reporting [of failing_world None zero_clock]
    by (simp add: failing_world_fields failing_results fetch_failed_errors)
  have f: "\<not> success (POST unconfigured_world zero_clock) \<and>
    http_status (POST unconfigured_world zero_clock) = 500"
    using sync_failure_reporting [of unconfigured_world _ zero_clock
        "ErrorObj ''Supabase environment variables not configured.''"]
    by (simp add: failing_world_fields)
  have e: "errors (fst (syncIcsCalendar failing_world zero_clock ''https://work.example/cal.ics'' Ics)) =
     [''fetch failed'']"
    using sync_failure_reporting [of failing_world _ _ _ "''https://work.example/cal.ics''"
        "ErrorObj ''fetch failed''" zero_clock Ics]
    by (simp add: failing_world_fields)
  from s f e show ?thesis
    by (simp add: failing_world_fields failing_results)
qed

text \<open>
  The claim as written fails when every feed fails: both fetches throw, each result
  carries its error, and the response still reports success.
\<close>

theorem all_feeds_fail_counterexample:
  "configured_feeds failing_world =
     ([''https://work.example/cal.ics''], [''https://home.example/cal.ics'']) \<and>
   fetch failing_world ''https://work.example/cal.ics'' = Inl (ErrorObj ''fetch failed'') \<and>
   fetch failing_world ''https://home.example/cal.ics'' = Inl (ErrorObj ''fetch failed'') \<and>
   results (POST failing_world zero_clock) = fetch_failed_results \<and>
   success (POST failing_world zero_clock) \<and>
   http_status (POST failing_world zero_clock) = 200"
  using POST_success(1,2) [of failing_world None zero_clock]
  by (simp add: failing_feeds failing_world_fields failing_results)

end
